theory Spec2Isabelle
  imports Main "HOL-Library.Sublist"
begin

section \<open>Data model of the notebook \<^verbatim>\<open>examples/reasoning_function_calls.ipynb\<close>\<close>

text \<open>
  The items of a conversation and of a response's \<^verbatim>\<open>output\<close> list, one constructor per
  value of the \<^verbatim>\<open>type\<close> field the notebook tests:
  \<^item> \<open>Message role text\<close>: \<^verbatim>\<open>type == 'message'\<close>; the user message dict
    \<^verbatim>\<open>{"role": "user", "type": "message", "content": message}\<close> and the output messages of
    the endpoint, whose content parts are collapsed to their text;
  \<^item> \<open>Reasoning id summary\<close>: \<^verbatim>\<open>type == 'reasoning'\<close>, with the texts of its summary;
  \<^item> \<open>FunctionCall call_id name arguments\<close>: \<^verbatim>\<open>type == 'function_call'\<close>, the
    arguments being the JSON text the endpoint sent;
  \<^item> \<open>FunctionCallOutput call_id output\<close>: the dict
    \<^verbatim>\<open>{"type": "function_call_output", "call_id": ..., "output": ...}\<close>;
  \<^item> \<open>OtherItem type\<close>: an output item of any other type.
\<close>

datatype item =
    Message string string
  | Reasoning string "string list"
  | FunctionCall string string string
  | FunctionCallOutput string string
  | OtherItem string

fun is_message :: "item \<Rightarrow> bool" where
  "is_message (Message role text) = True"
| "is_message other = False"

fun is_reasoning :: "item \<Rightarrow> bool" where
  "is_reasoning (Reasoning rid summary) = True"
| "is_reasoning other = False"

fun is_function_call :: "item \<Rightarrow> bool" where
  "is_function_call (FunctionCall cid nm args) = True"
| "is_function_call other = False"

fun is_function_call_output :: "item \<Rightarrow> bool" where
  "is_function_call_output (FunctionCallOutput cid out) = True"
| "is_function_call_output other = False"

text \<open>The \<^verbatim>\<open>call_id\<close> of a function call or of a function call output.\<close>

fun call_id :: "item \<Rightarrow> string" where
  "call_id (FunctionCall cid nm args) = cid"
| "call_id (FunctionCallOutput cid out) = cid"
| "call_id other = []"

text \<open>
  A response of the endpoint: its \<^verbatim>\<open>id\<close>, its \<^verbatim>\<open>output\<close> items and
  \<^verbatim>\<open>usage.total_tokens\<close>.
\<close>

record response =
  response_id :: string
  output_items :: "item list"
  total_tokens :: int

text \<open>
  \<^verbatim>\<open>response.output_text\<close>, a property of the client library: the texts of the message
  items of the output, concatenated.
\<close>

fun message_texts :: "item list \<Rightarrow> string list" where
  "message_texts [] = []"
| "message_texts (Message role text # rest) = text # message_texts rest"
| "message_texts (other # rest) = message_texts rest"

definition output_text :: "response \<Rightarrow> string" where
  "output_text resp = concat (message_texts (output_items resp))"

text \<open>
  What a tool does when it is called: it returns its text (\<open>Returned\<close>); or it raises an
  exception \<open>e\<close> that is an instance of \<^verbatim>\<open>Exception\<close>, the class the handler of
  \<^verbatim>\<open>invoke_functions_from_response\<close> names (\<open>Raised\<close>, with the text \<^verbatim>\<open>str(e)\<close>); or it
  raises an exception that is no instance of \<^verbatim>\<open>Exception\<close>, such as
  \<^verbatim>\<open>KeyboardInterrupt\<close> or \<^verbatim>\<open>SystemExit\<close> (\<open>Escaped\<close>, with the name of the exception),
  which \<^verbatim>\<open>except Exception\<close> does not catch.
  A tool is a Python callable and may touch the outside world (\<^verbatim>\<open>web_search\<close> calls the
  network, \<^verbatim>\<open>get_city_uuid\<close> draws a random UUID): it takes the state \<open>'w\<close> of that
  world and returns the new one. The argument type \<open>'j\<close> is the value \<^verbatim>\<open>json.loads\<close>
  produced. Calling the tool with arguments it does not accept
  (\<^verbatim>\<open>target_tool(**arguments)\<close> raising \<^verbatim>\<open>TypeError\<close>) is one way of raising.
\<close>

datatype outcome = Returned string | Raised string | Escaped string

type_synonym ('j, 'w) tool = "'j \<Rightarrow> 'w \<Rightarrow> outcome \<times> 'w"

text \<open>
  What \<^verbatim>\<open>print\<close> wrote. A line whose text is fixed by the notebook is \<open>Line\<close>; the two
  f-strings that format a Python object with its \<^verbatim>\<open>repr\<close> keep the object:
  \<^verbatim>\<open>f"Invoking tool: {name}({arguments})"\<close> and \<^verbatim>\<open>f'Reasoning step: {summary}'\<close>; the
  last line of the session keeps the token count it formats.
\<close>

datatype 'j printed =
    Line string
  | InvokingTool string 'j
  | ReasoningStep "string list"
  | TotalTokensUsed int

text \<open>
  The state the notebook's cells mutate: the \<^verbatim>\<open>conversation\<close> list, the counter
  \<^verbatim>\<open>total_tokens_used\<close>, standard output, and the outside world the tools and the
  endpoint act on.
\<close>

record ('j, 'w) state =
  conversation :: "item list"
  total_tokens_used :: int
  stdout :: "'j printed list"
  world :: 'w

definition print :: "'j printed \<Rightarrow> ('j, 'w) state \<Rightarrow> ('j, 'w) state" where
  "print l st = st\<lparr>stdout := stdout st @ [l]\<rparr>"

section \<open>\<^verbatim>\<open>invoke_functions_from_response\<close>\<close>

text \<open>
  The two diagnostic messages of the function:
  \<^verbatim>\<open>f"Error executing function call: {response_item.name}: {e}"\<close> and
  \<^verbatim>\<open>f"ERROR - No tool registered for function call: {response_item.name}"\<close>.
\<close>

definition error_executing :: "string \<Rightarrow> string \<Rightarrow> string" where
  "error_executing nm e = ''Error executing function call: '' @ nm @ '': '' @ e"

definition no_tool_registered :: "string \<Rightarrow> string" where
  "no_tool_registered nm = ''ERROR - No tool registered for function call: '' @ nm"

text \<open>
  The body of the \<^verbatim>\<open>if response_item.type == 'function_call'\<close> branch up to the append:
  it computes \<^verbatim>\<open>tool_output\<close> (\<open>Inr\<close>). \<open>loads\<close> is \<^verbatim>\<open>json.loads\<close>, returning \<open>Inl\<close> of
  the text of the exception on malformed JSON. Both \<^verbatim>\<open>json.loads\<close> and the call of the tool
  are inside the \<^verbatim>\<open>try\<close>; the tool is called only when the arguments were parsed. An
  exception of the tool that the handler does not catch leaves the function (\<open>Inl\<close>).
\<close>

definition call_tool ::
  "(string \<Rightarrow> string + 'j) \<Rightarrow> (string \<rightharpoonup> ('j, 'w) tool) \<Rightarrow> string \<Rightarrow> string \<Rightarrow>
   ('j, 'w) state \<Rightarrow> (string + string) \<times> ('j, 'w) state" where
  "call_tool loads tool_mapping nm args st =
     (case tool_mapping nm of
        Some target_tool \<Rightarrow>
          (case loads args of
             Inr arguments \<Rightarrow>
               (let st1 = print (InvokingTool nm arguments) st in
                case target_tool arguments (world st1) of
                  (Returned tool_output, w) \<Rightarrow> (Inr tool_output, st1\<lparr>world := w\<rparr>)
                | (Raised e, w) \<Rightarrow>
                    (let msg = error_executing nm e
                     in (Inr msg, print (Line msg) (st1\<lparr>world := w\<rparr>)))
                | (Escaped x, w) \<Rightarrow> (Inl x, st1\<lparr>world := w\<rparr>))
           | Inl e \<Rightarrow>
               (let msg = error_executing nm e
                in (Inr msg, print (Line msg) st)))
      | None \<Rightarrow>
          (let msg = no_tool_registered nm
           in (Inr msg, print (Line msg) st)))"

text \<open>
  The \<^verbatim>\<open>for response_item in response.output\<close> loop. When it returns (\<open>Inr\<close>), the result is
  the list \<^verbatim>\<open>intermediate_messages\<close>, one output appended per function call, in the order of
  the loop. An exception that leaves \<open>call_tool\<close> leaves the loop and the function (\<open>Inl\<close>).
\<close>

fun invoke_functions_from_response ::
  "(string \<Rightarrow> string + 'j) \<Rightarrow> (string \<rightharpoonup> ('j, 'w) tool) \<Rightarrow> item list \<Rightarrow>
   ('j, 'w) state \<Rightarrow> (string + item list) \<times> ('j, 'w) state" where
  "invoke_functions_from_response loads tool_mapping [] st = (Inr [], st)"
| "invoke_functions_from_response loads tool_mapping (FunctionCall cid nm args # rest) st =
     (case call_tool loads tool_mapping nm args st of
        (Inl x, st1) \<Rightarrow> (Inl x, st1)
      | (Inr tool_output, st1) \<Rightarrow>
          (case invoke_functions_from_response loads tool_mapping rest st1 of
             (Inl x, st2) \<Rightarrow> (Inl x, st2)
           | (Inr intermediate_messages, st2) \<Rightarrow>
               (Inr (FunctionCallOutput cid tool_output # intermediate_messages), st2)))"
| "invoke_functions_from_response loads tool_mapping (Reasoning rid summary # rest) st =
     invoke_functions_from_response loads tool_mapping rest (print (ReasoningStep summary) st)"
| "invoke_functions_from_response loads tool_mapping (other # rest) st =
     invoke_functions_from_response loads tool_mapping rest st"

section \<open>The cell before the function\<close>

text \<open>
  Before it defines \<^verbatim>\<open>invoke_functions_from_response\<close>, the notebook handles the function
  calls of one response in a cell of its own, with no \<^verbatim>\<open>try\<close>: a tool that is not registered
  makes it raise \<^verbatim>\<open>ValueError\<close>, and what \<^verbatim>\<open>json.loads\<close> or the tool raises, of either
  kind, goes up as it is.
  \<^verbatim>\<open>
  new_conversation_items = []
  function_calls = [rx for rx in response.output if rx.type == 'function_call']
  for function_call in function_calls:
      target_tool = tool_mapping.get(function_call.name)
      if not target_tool:
          raise ValueError(f"No tool found for function call: {function_call.name}")
      arguments = json.loads(function_call.arguments)
      tool_output = target_tool(**arguments)
      new_conversation_items.append({...})
  \<close>
\<close>

datatype raised = ValueError string | Uncaught string

fun inline_function_calls ::
  "(string \<Rightarrow> string + 'j) \<Rightarrow> (string \<rightharpoonup> ('j, 'w) tool) \<Rightarrow> item list \<Rightarrow> 'w \<Rightarrow>
   (raised + item list) \<times> 'w" where
  "inline_function_calls loads tool_mapping [] w = (Inr [], w)"
| "inline_function_calls loads tool_mapping (FunctionCall cid nm args # rest) w =
     (case tool_mapping nm of
        None \<Rightarrow> (Inl (ValueError (''No tool found for function call: '' @ nm)), w)
      | Some target_tool \<Rightarrow>
          (case loads args of
             Inl e \<Rightarrow> (Inl (Uncaught e), w)
           | Inr arguments \<Rightarrow>
               (case target_tool arguments w of
                  (Raised e, w1) \<Rightarrow> (Inl (Uncaught e), w1)
                | (Escaped x, w1) \<Rightarrow> (Inl (Uncaught x), w1)
                | (Returned tool_output, w1) \<Rightarrow>
                    (case inline_function_calls loads tool_mapping rest w1 of
                       (Inl err, w2) \<Rightarrow> (Inl err, w2)
                     | (Inr new_conversation_items, w2) \<Rightarrow>
                         (Inr (FunctionCallOutput cid tool_output # new_conversation_items),
                          w2)))))"
| "inline_function_calls loads tool_mapping (other # rest) w =
     inline_function_calls loads tool_mapping rest w"

definition inline_cell ::
  "(string \<Rightarrow> string + 'j) \<Rightarrow> (string \<rightharpoonup> ('j, 'w) tool) \<Rightarrow> response \<Rightarrow> 'w \<Rightarrow>
   (raised + item list) \<times> 'w" where
  "inline_cell loads tool_mapping resp w =
     (let function_calls = filter is_function_call (output_items resp)
      in inline_function_calls loads tool_mapping function_calls w)"

section \<open>The manual conversation loop\<close>

text \<open>
  The endpoint, \<^verbatim>\<open>client.responses.create(input=..., previous_response_id=..., **MODEL_DEFAULTS)\<close>:
  it is given the input items and the previous response id (\<open>None\<close> when the keyword is not
  passed), acts on the outside world, and returns a response or raises. What it raises has the
  type \<open>'e\<close>, whatever the client library's exceptions are.
\<close>

type_synonym ('e, 'w) endpoint = "item list \<Rightarrow> string option \<Rightarrow> 'w \<Rightarrow> ('e + response) \<times> 'w"

text \<open>\<^verbatim>\<open>sep.join(xs)\<close>.\<close>

fun join :: "string \<Rightarrow> string list \<Rightarrow> string" where
  "join sep [] = []"
| "join sep [x] = x"
| "join sep (x # y # ys) = x @ sep @ join sep (y # ys)"

fun summary_of :: "item \<Rightarrow> string list" where
  "summary_of (Reasoning rid summary) = summary"
| "summary_of other = []"

text \<open>
  \<^verbatim>\<open>[val for pair in zip(function_calls, function_outputs) for val in pair]\<close>
\<close>

definition interleave :: "item list \<Rightarrow> item list \<Rightarrow> item list" where
  "interleave function_calls function_outputs =
     concat (map (\<lambda>(c, out). [c, out]) (zip function_calls function_outputs))"

text \<open>The block \<^verbatim>\<open>if len(reasoning) > 0:\<close> of the response loop.\<close>

definition capture_reasoning :: "item list \<Rightarrow> ('j, 'w) state \<Rightarrow> ('j, 'w) state" where
  "capture_reasoning reasoning st =
     (if length reasoning > 0 then
        (let st1 = print (Line ''More reasoning required, continuing...'') st;
             st2 = st1\<lparr>conversation := conversation st1 @ reasoning\<rparr>
         in print (Line (join [CHR 0x0A] (concat (map summary_of reasoning)))) st2)
      else st)"

text \<open>
  The block \<^verbatim>\<open>if len(function_calls) > 0:\<close>. An exception that leaves
  \<^verbatim>\<open>invoke_functions_from_response\<close> leaves the block before anything is appended (\<open>Some\<close>).
\<close>

definition capture_function_calls ::
  "(string \<Rightarrow> string + 'j) \<Rightarrow> (string \<rightharpoonup> ('j, 'w) tool) \<Rightarrow> response \<Rightarrow> item list \<Rightarrow>
   ('j, 'w) state \<Rightarrow> string option \<times> ('j, 'w) state" where
  "capture_function_calls loads tool_mapping resp function_calls st =
     (if length function_calls > 0 then
        (case invoke_functions_from_response loads tool_mapping (output_items resp) st of
           (Inl x, st1) \<Rightarrow> (Some x, st1)
         | (Inr function_outputs, st1) \<Rightarrow>
             (let interleaved = interleave function_calls function_outputs
              in (None, st1\<lparr>conversation := conversation st1 @ interleaved\<rparr>)))
      else (None, st))"

text \<open>The block \<^verbatim>\<open>if len(messages) > 0:\<close>.\<close>

definition capture_messages :: "response \<Rightarrow> item list \<Rightarrow> ('j, 'w) state \<Rightarrow> ('j, 'w) state" where
  "capture_messages resp messages st =
     (if length messages > 0 then
        (let st1 = print (Line (output_text resp)) st
         in st1\<lparr>conversation := conversation st1 @ messages\<rparr>)
      else st)"

text \<open>
  One pass through the body of \<^verbatim>\<open>while True: # Response loop\<close>. The call of the endpoint is
  outside any \<^verbatim>\<open>try\<close>: what it raises leaves the loop (\<open>Inl\<close>). Otherwise the pass goes
  round again, ends at the \<^verbatim>\<open>break\<close>, or is left by an exception of a tool that the handler
  of \<^verbatim>\<open>invoke_functions_from_response\<close> did not catch (\<open>Escape\<close>).
\<close>

datatype control = Continue | Break | Escape string

definition response_round ::
  "('e, 'w) endpoint \<Rightarrow> (string \<Rightarrow> string + 'j) \<Rightarrow> (string \<rightharpoonup> ('j, 'w) tool) \<Rightarrow>
   ('j, 'w) state \<Rightarrow> ('e + control) \<times> ('j, 'w) state" where
  "response_round create loads tool_mapping st =
     (case create (conversation st) None (world st) of
        (Inl err, w) \<Rightarrow> (Inl err, st\<lparr>world := w\<rparr>)
      | (Inr resp, w) \<Rightarrow>
          (let st1 = st\<lparr>world := w,
                         total_tokens_used := total_tokens_used st + total_tokens resp\<rparr>;
               reasoning = filter is_reasoning (output_items resp);
               function_calls = filter is_function_call (output_items resp);
               messages = filter is_message (output_items resp);
               st2 = capture_reasoning reasoning st1
           in case capture_function_calls loads tool_mapping resp function_calls st2 of
                (Some x, st3) \<Rightarrow> (Inr (Escape x), st3)
              | (None, st3) \<Rightarrow>
                  (let st4 = capture_messages resp messages st3
                   in (Inr (if length function_calls = 0 then Break else Continue), st4))))"

text \<open>
  How a loop of the notebook ends, when it ends: at its \<^verbatim>\<open>break\<close>, with the exception of the
  endpoint going up to the caller, or with the exception of a tool going up to the caller.
\<close>

datatype 'e finish = Finished | Propagated 'e | ToolEscaped string

text \<open>
  \<^verbatim>\<open>while True: # Response loop\<close>. The loop has no other exit than its \<^verbatim>\<open>break\<close> and an
  exception; \<open>None\<close> is the loop running forever.
\<close>

partial_function (option) response_loop ::
  "('e, 'w) endpoint \<Rightarrow> (string \<Rightarrow> string + 'j) \<Rightarrow> (string \<rightharpoonup> ('j, 'w) tool) \<Rightarrow>
   ('j, 'w) state \<Rightarrow> ('e finish \<times> ('j, 'w) state) option" where
  "response_loop create loads tool_mapping st =
     (case response_round create loads tool_mapping st of
        (Inl err, st1) \<Rightarrow> Some (Propagated err, st1)
      | (Inr Break, st1) \<Rightarrow> Some (Finished, st1)
      | (Inr (Escape x), st1) \<Rightarrow> Some (ToolEscaped x, st1)
      | (Inr Continue, st1) \<Rightarrow> response_loop create loads tool_mapping st1)"

text \<open>
  \<^verbatim>\<open>for message in user_messages:\<close> with the response loop inside it. An exception that
  leaves the response loop ends the whole cell.
\<close>

definition user_banner :: "string \<Rightarrow> string" where
  "user_banner message =
     replicate 79 (CHR ''*'') @ [CHR 0x0A] @ ''User message: '' @ message @ [CHR 0x0A]
       @ replicate 79 (CHR ''*'')"

text \<open>The body of the \<^verbatim>\<open>for\<close> loop before the response loop: the banner and the append.\<close>

definition start_message :: "string \<Rightarrow> ('j, 'w) state \<Rightarrow> ('j, 'w) state" where
  "start_message message st =
     (let conversation_item = Message ''user'' message;
          st1 = print (Line (user_banner message)) st
      in st1\<lparr>conversation := conversation st1 @ [conversation_item]\<rparr>)"

fun user_messages_loop ::
  "('e, 'w) endpoint \<Rightarrow> (string \<Rightarrow> string + 'j) \<Rightarrow> (string \<rightharpoonup> ('j, 'w) tool) \<Rightarrow>
   string list \<Rightarrow> ('j, 'w) state \<Rightarrow> ('e finish \<times> ('j, 'w) state) option" where
  "user_messages_loop create loads tool_mapping [] st = Some (Finished, st)"
| "user_messages_loop create loads tool_mapping (message # rest) st =
     (case response_loop create loads tool_mapping (start_message message st) of
        None \<Rightarrow> None
      | Some (Propagated err, st1) \<Rightarrow> Some (Propagated err, st1)
      | Some (ToolEscaped x, st1) \<Rightarrow> Some (ToolEscaped x, st1)
      | Some (Finished, st1) \<Rightarrow> user_messages_loop create loads tool_mapping rest st1)"

text \<open>
  The whole cell: \<^verbatim>\<open>total_tokens_used = 0\<close>, \<^verbatim>\<open>conversation = []\<close>, the loop over the user
  messages, and the last \<^verbatim>\<open>print\<close>.
\<close>

definition manual_orchestration ::
  "('e, 'w) endpoint \<Rightarrow> (string \<Rightarrow> string + 'j) \<Rightarrow> (string \<rightharpoonup> ('j, 'w) tool) \<Rightarrow>
   string list \<Rightarrow> 'j printed list \<Rightarrow> 'w \<Rightarrow> ('e finish \<times> ('j, 'w) state) option" where
  "manual_orchestration create loads tool_mapping user_messages out w =
     (case user_messages_loop create loads tool_mapping user_messages
             \<lparr>conversation = [], total_tokens_used = 0, stdout = out, world = w\<rparr> of
        None \<Rightarrow> None
      | Some (Propagated err, st) \<Rightarrow> Some (Propagated err, st)
      | Some (ToolEscaped x, st) \<Rightarrow> Some (ToolEscaped x, st)
      | Some (Finished, st) \<Rightarrow>
          Some (Finished, print (TotalTokensUsed (total_tokens_used st)) st))"

section \<open>The loop on \<^verbatim>\<open>previous_response_id\<close>\<close>

text \<open>
  The first loop of the notebook keeps no conversation: it sends the function outputs with the
  id of the previous response.
  \<^verbatim>\<open>
  while True:
      function_responses = invoke_functions_from_response(response)
      if len(function_responses) == 0:
          print(response.output_text)
          break
      else:
          print("More reasoning required, continuing...")
          response = client.responses.create(
              input=function_responses, previous_response_id=response.id, **MODEL_DEFAULTS)
  \<close>
\<close>

partial_function (option) chained_loop ::
  "('e, 'w) endpoint \<Rightarrow> (string \<Rightarrow> string + 'j) \<Rightarrow> (string \<rightharpoonup> ('j, 'w) tool) \<Rightarrow>
   response \<Rightarrow> ('j, 'w) state \<Rightarrow> ('e finish \<times> ('j, 'w) state) option" where
  "chained_loop create loads tool_mapping resp st =
     (case invoke_functions_from_response loads tool_mapping (output_items resp) st of
        (Inl x, st1) \<Rightarrow> Some (ToolEscaped x, st1)
      | (Inr function_responses, st1) \<Rightarrow>
          if length function_responses = 0 then
            Some (Finished, print (Line (output_text resp)) st1)
          else
            (let st2 = print (Line ''More reasoning required, continuing...'') st1
             in case create function_responses (Some (response_id resp)) (world st2) of
                  (Inl err, w) \<Rightarrow> Some (Propagated err, st2\<lparr>world := w\<rparr>)
                | (Inr resp', w) \<Rightarrow>
                    chained_loop create loads tool_mapping resp' (st2\<lparr>world := w\<rparr>)))"

text \<open>
  The cell around it: the first call of the endpoint, whose input is the question (a string
  input is one user message), then the loop.
\<close>

definition chained_orchestration ::
  "('e, 'w) endpoint \<Rightarrow> (string \<Rightarrow> string + 'j) \<Rightarrow> (string \<rightharpoonup> ('j, 'w) tool) \<Rightarrow>
   string \<Rightarrow> ('j, 'w) state \<Rightarrow> ('e finish \<times> ('j, 'w) state) option" where
  "chained_orchestration create loads tool_mapping initial_question st =
     (case create [Message ''user'' initial_question] None (world st) of
        (Inl err, w) \<Rightarrow> Some (Propagated err, st\<lparr>world := w\<rparr>)
      | (Inr resp, w) \<Rightarrow> chained_loop create loads tool_mapping resp (st\<lparr>world := w\<rparr>))"

section \<open>Notions used to state the properties\<close>

text \<open>
  The state of the response loop after \<open>n\<close> passes that all went round again; \<open>None\<close> when
  one of them left the loop.
\<close>

fun after_rounds ::
  "('e, 'w) endpoint \<Rightarrow> (string \<Rightarrow> string + 'j) \<Rightarrow> (string \<rightharpoonup> ('j, 'w) tool) \<Rightarrow>
   nat \<Rightarrow> ('j, 'w) state \<Rightarrow> ('j, 'w) state option" where
  "after_rounds create loads tool_mapping 0 st = Some st"
| "after_rounds create loads tool_mapping (Suc n) st =
     (case response_round create loads tool_mapping st of
        (Inr Continue, st1) \<Rightarrow> after_rounds create loads tool_mapping n st1
      | (Inr Break, st1) \<Rightarrow> None
      | (Inr (Escape x), st1) \<Rightarrow> None
      | (Inl err, st1) \<Rightarrow> None)"

text \<open>
  The tools of a registry, each made to write its name and its arguments into a log when it is
  called. The log is a second component of the outside world, which only the tools reach.
\<close>

definition recording ::
  "(string \<rightharpoonup> ('j, 'w) tool) \<Rightarrow> (string \<rightharpoonup> ('j, 'w \<times> (string \<times> 'j) list) tool)" where
  "recording tool_mapping nm =
     (case tool_mapping nm of
        None \<Rightarrow> None
      | Some target_tool \<Rightarrow>
          Some (\<lambda>arguments (w, log).
                  case target_tool arguments w of
                    (result, w') \<Rightarrow> (result, (w', log @ [(nm, arguments)]))))"

text \<open>
  The calls the items of an output list ask for, in the order of the list: one for each
  function call whose tool is registered and whose arguments are well-formed JSON.
\<close>

fun requested_call ::
  "(string \<Rightarrow> string + 'j) \<Rightarrow> (string \<rightharpoonup> ('j, 'w) tool) \<Rightarrow> item \<Rightarrow> (string \<times> 'j) list" where
  "requested_call loads tool_mapping (FunctionCall cid nm args) =
     (case tool_mapping nm of
        None \<Rightarrow> []
      | Some target_tool \<Rightarrow> (case loads args of Inl e \<Rightarrow> [] | Inr arguments \<Rightarrow> [(nm, arguments)]))"
| "requested_call loads tool_mapping other = []"

definition requested_calls ::
  "(string \<Rightarrow> string + 'j) \<Rightarrow> (string \<rightharpoonup> ('j, 'w) tool) \<Rightarrow> item list \<Rightarrow> (string \<times> 'j) list" where
  "requested_calls loads tool_mapping items = concat (map (requested_call loads tool_mapping) items)"

text \<open>The same state with the log taken out of the world.\<close>

definition without_log :: "('j, 'w \<times> (string \<times> 'j) list) state \<Rightarrow> ('j, 'w) state" where
  "without_log st =
     \<lparr>conversation = conversation st, total_tokens_used = total_tokens_used st,
      stdout = stdout st, world = fst (world st)\<rparr>"

text \<open>
  A registry whose tools, when they fail, raise instances of \<^verbatim>\<open>Exception\<close> only: none of
  them, on any arguments and in any world, raises what \<^verbatim>\<open>except Exception\<close> lets through.
\<close>

definition only_exceptions :: "(string \<rightharpoonup> ('j, 'w) tool) \<Rightarrow> bool" where
  "only_exceptions tool_mapping =
     (\<forall>nm target_tool arguments w x.
        tool_mapping nm = Some target_tool \<longrightarrow> fst (target_tool arguments w) \<noteq> Escaped x)"

text \<open>
  The state in which the tools of a round run: the response \<open>resp\<close> has come back, leaving
  the world \<open>w\<close>, its tokens are counted and its reasoning items are in the conversation.
\<close>

definition tools_start :: "response \<Rightarrow> 'w \<Rightarrow> ('j, 'w) state \<Rightarrow> ('j, 'w) state" where
  "tools_start resp w st =
     capture_reasoning (filter is_reasoning (output_items resp))
       (st\<lparr>world := w, total_tokens_used := total_tokens_used st + total_tokens resp\<rparr>)"

section \<open>Concrete tools and endpoints\<close>

text \<open>
  The argument texts the concrete endpoints send, and \<^verbatim>\<open>json.loads\<close> on them: two JSON
  objects and the empty object are parsed into their keyword arguments, and the text
  \<^verbatim>\<open>{\<close> is rejected with the message \<^verbatim>\<open>json.loads\<close> gives for it. Any other text is taken as
  not being JSON.
\<close>

definition london_arguments :: string where
  \<open>london_arguments = ''{"city": "London"}''\<close>

definition tokyo_arguments :: string where
  \<open>tokyo_arguments = ''{"query": "Tokyo climate"}''\<close>

definition example_loads :: "string \<Rightarrow> string + (string \<times> string) list" where
  "example_loads s =
     (if s = london_arguments then Inr [(''city'', ''London'')]
      else if s = tokyo_arguments then Inr [(''query'', ''Tokyo climate'')]
      else if s = ''{}'' then Inr []
      else if s = ''{'' then
        Inl ''Expecting property name enclosed in double quotes: line 1 column 2 (char 1)''
      else Inl ''Expecting value: line 1 column 1 (char 0)'')"

text \<open>
  A registry of two tools: \<^verbatim>\<open>get_city_uuid\<close> returns when it is given a city and raises
  \<^verbatim>\<open>TypeError\<close> otherwise, \<^verbatim>\<open>web_search\<close> raises an \<^verbatim>\<open>Exception\<close>. The world counts the calls
  made to the tools and to the endpoint.
\<close>

definition example_tools :: "string \<rightharpoonup> ((string \<times> string) list, nat) tool" where
  "example_tools =
     [''get_city_uuid'' \<mapsto>
        (\<lambda>arguments w.
           case map_of arguments ''city'' of
             Some city \<Rightarrow> (Returned (city @ '' ID: 42''), Suc w)
           | None \<Rightarrow>
               (Raised ''get_city_uuid() missing 1 required positional argument'', Suc w)),
      ''web_search'' \<mapsto> (\<lambda>arguments w. (Raised ''Connection error.'', Suc w))]"

text \<open>
  A registry whose \<^verbatim>\<open>web_search\<close> is interrupted from the keyboard while it waits for the
  network: it raises \<^verbatim>\<open>KeyboardInterrupt\<close>, which is no instance of \<^verbatim>\<open>Exception\<close>.
\<close>

definition interrupted_tools :: "string \<rightharpoonup> ((string \<times> string) list, nat) tool" where
  "interrupted_tools =
     [''web_search'' \<mapsto> (\<lambda>arguments w. (Escaped ''KeyboardInterrupt'', Suc w))]"

text \<open>
  The state at the start of the cell, and the state when the response loop starts for the user
  message \<^verbatim>\<open>ping\<close>.
\<close>

definition empty_state :: "((string \<times> string) list, nat) state" where
  "empty_state = \<lparr>conversation = [], total_tokens_used = 0, stdout = [], world = 0\<rparr>"

definition ping_state :: "((string \<times> string) list, nat) state" where
  "ping_state =
     \<lparr>conversation = [Message ''user'' ''ping''], total_tokens_used = 0,
      stdout = [Line (user_banner ''ping'')], world = 0\<rparr>"

text \<open>
  An endpoint that asks for two tool calls, with a reasoning item before them and a message
  after them, as long as its input holds no function call output, and answers \<^verbatim>\<open>pong\<close>
  once it does. The second tool it asks for is not registered.
\<close>

definition two_calls :: "item list" where
  "two_calls =
     [Reasoning ''rs_1'' [''plan''],
      FunctionCall ''call_1'' ''get_city_uuid'' london_arguments,
      FunctionCall ''call_2'' ''mystery'' ''{}'',
      Message ''assistant'' ''Looking it up'']"

definition first_response :: response where
  "first_response = \<lparr>response_id = ''resp_1'', output_items = two_calls, total_tokens = 7\<rparr>"

definition pong_response :: response where
  "pong_response =
     \<lparr>response_id = ''resp_2'', output_items = [Message ''assistant'' ''pong''],
      total_tokens = 5\<rparr>"

definition scripted_endpoint :: "(string, nat) endpoint" where
  "scripted_endpoint input previous_response_id w =
     (if list_ex is_function_call_output input then (Inr pong_response, Suc w)
      else (Inr first_response, Suc w))"

text \<open>The state after the first round with this endpoint, and after the second.\<close>

definition after_first_round :: "((string \<times> string) list, nat) state" where
  "after_first_round =
     \<lparr>conversation =
        [Message ''user'' ''ping'',
         Reasoning ''rs_1'' [''plan''],
         FunctionCall ''call_1'' ''get_city_uuid'' london_arguments,
         FunctionCallOutput ''call_1'' ''London ID: 42'',
         FunctionCall ''call_2'' ''mystery'' ''{}'',
         FunctionCallOutput ''call_2'' ''ERROR - No tool registered for function call: mystery'',
         Message ''assistant'' ''Looking it up''],
      total_tokens_used = 7,
      stdout =
        [Line (user_banner ''ping''),
         Line ''More reasoning required, continuing...'',
         Line ''plan'',
         ReasoningStep [''plan''],
         InvokingTool ''get_city_uuid'' [(''city'', ''London'')],
         Line ''ERROR - No tool registered for function call: mystery'',
         Line ''Looking it up''],
      world = 2\<rparr>"

definition after_pong :: "((string \<times> string) list, nat) state" where
  "after_pong =
     after_first_round
       \<lparr>conversation := conversation after_first_round @ [Message ''assistant'' ''pong''],
        total_tokens_used := 12,
        stdout := stdout after_first_round @ [Line ''pong''],
        world := 3\<rparr>"

text \<open>
  An endpoint that asks for a web search once and raises when called again, and the state
  after its first round with the registry \<open>example_tools\<close>.
\<close>

definition search_response :: response where
  "search_response =
     \<lparr>response_id = ''resp_1'',
      output_items = [FunctionCall ''call_1'' ''web_search'' tokyo_arguments],
      total_tokens = 7\<rparr>"

definition flaky_endpoint :: "(string, nat) endpoint" where
  "flaky_endpoint input previous_response_id w =
     (if list_ex is_function_call_output input then (Inl ''Request timed out.'', Suc w)
      else (Inr search_response, Suc w))"

definition after_flaky_round :: "((string \<times> string) list, nat) state" where
  "after_flaky_round =
     \<lparr>conversation =
        [Message ''user'' ''ping'',
         FunctionCall ''call_1'' ''web_search'' tokyo_arguments,
         FunctionCallOutput ''call_1''
           ''Error executing function call: web_search: Connection error.''],
      total_tokens_used = 7,
      stdout =
        [Line (user_banner ''ping''),
         InvokingTool ''web_search'' [(''query'', ''Tokyo climate'')],
         Line ''Error executing function call: web_search: Connection error.''],
      world = 2\<rparr>"

text \<open>An endpoint that asks for a tool call whatever it is sent.\<close>

definition insistent_response :: response where
  "insistent_response =
     \<lparr>response_id = ''resp'',
      output_items = [FunctionCall ''call_1'' ''get_city_uuid'' london_arguments],
      total_tokens = 1\<rparr>"

definition insistent_endpoint :: "(string, nat) endpoint" where
  "insistent_endpoint input previous_response_id w = (Inr insistent_response, Suc w)"

text \<open>
  The state in which the first round of \<open>flaky_endpoint\<close> is left when the registry is
  \<open>interrupted_tools\<close>: the call was printed, nothing was appended.
\<close>

definition after_interrupt :: "((string \<times> string) list, nat) state" where
  "after_interrupt =
     \<lparr>conversation = [Message ''user'' ''ping''],
      total_tokens_used = 7,
      stdout =
        [Line (user_banner ''ping''),
         InvokingTool ''web_search'' [(''query'', ''Tokyo climate'')]],
      world = 2\<rparr>"

section \<open>Facts about \<^verbatim>\<open>invoke_functions_from_response\<close>\<close>

text \<open>The function touches standard output and the world only.\<close>

lemma call_tool_keeps:
  "conversation (snd (call_tool loads tm nm args st)) = conversation st"
  "total_tokens_used (snd (call_tool loads tm nm args st)) = total_tokens_used st"
  by (auto simp: call_tool_def print_def Let_def
           split: option.splits sum.splits prod.splits outcome.splits)

lemma invoke_keeps_conversation:
  "conversation (snd (invoke_functions_from_response loads tm items st)) = conversation st"
proof (induction loads tm items st rule: invoke_functions_from_response.induct)
  case (2 loads tm cid nm args rest st)
  then show ?case
    using call_tool_keeps(1) [of loads tm nm args st]
    by (auto split: prod.splits sum.splits)
qed (auto simp: print_def)

text \<open>When it returns, it returns one output per function call, under the call's id.\<close>

lemma invoke_call_ids:
  "fst (invoke_functions_from_response loads tm items st) = Inr results \<Longrightarrow>
   map call_id results = map call_id (filter is_function_call items)"
  by (induction loads tm items st arbitrary: results
        rule: invoke_functions_from_response.induct)
     (auto split: prod.splits sum.splits)

lemma invoke_all_outputs:
  "fst (invoke_functions_from_response loads tm items st) = Inr results \<Longrightarrow>
   list_all is_function_call_output results"
  by (induction loads tm items st arbitrary: results
        rule: invoke_functions_from_response.induct)
     (auto split: prod.splits sum.splits)

lemma invoke_length:
  "fst (invoke_functions_from_response loads tm items st) = Inr results \<Longrightarrow>
   length results = length (filter is_function_call items)"
  using invoke_call_ids [of loads tm items st results] by (auto dest: map_eq_imp_length_eq)

lemma invoke_append:
  "invoke_functions_from_response loads tm (xs @ ys) st =
     (case invoke_functions_from_response loads tm xs st of
        (Inl x, st1) \<Rightarrow> (Inl x, st1)
      | (Inr outs1, st1) \<Rightarrow>
          (case invoke_functions_from_response loads tm ys st1 of
             (Inl x, st2) \<Rightarrow> (Inl x, st2)
           | (Inr outs2, st2) \<Rightarrow> (Inr (outs1 @ outs2), st2)))"
  by (induction loads tm xs st rule: invoke_functions_from_response.induct)
     (auto split: prod.splits sum.splits)

text \<open>
  With tools that raise instances of \<^verbatim>\<open>Exception\<close> only, every exception is caught and the
  function returns.
\<close>

lemma call_tool_returns:
  assumes "only_exceptions tm"
  shows "\<exists>tool_output st'. call_tool loads tm nm args st = (Inr tool_output, st')"
proof (cases "tm nm")
  case None
  then show ?thesis by (simp add: call_tool_def Let_def)
next
  case (Some target_tool)
  show ?thesis
  proof (cases "loads args")
    case (Inl e)
    with Some show ?thesis by (simp add: call_tool_def Let_def)
  next
    case (Inr arguments)
    let ?st1 = "print (InvokingTool nm arguments) st"
    obtain r w where r: "target_tool arguments (world ?st1) = (r, w)"
      by (cases "target_tool arguments (world ?st1)")
    have "\<And>x. r \<noteq> Escaped x"
      using assms Some r unfolding only_exceptions_def by (metis fst_conv)
    then show ?thesis
      using Some Inr r by (cases r) (auto simp add: call_tool_def Let_def)
  qed
qed

lemma invoke_returns:
  assumes "only_exceptions tm"
  shows "\<exists>results st'. invoke_functions_from_response loads tm items st = (Inr results, st')"
proof (induction items arbitrary: st)
  case Nil
  then show ?case by simp
next
  case (Cons it items)
  show ?case
  proof (cases it)
    case (FunctionCall cid nm args)
    obtain tool_output st1 where ct: "call_tool loads tm nm args st = (Inr tool_output, st1)"
      using call_tool_returns [OF assms] by blast
    obtain results st2 where
      "invoke_functions_from_response loads tm items st1 = (Inr results, st2)"
      using Cons.IH by blast
    with ct FunctionCall show ?thesis by simp
  next
    case (Reasoning rid summary)
    then show ?thesis using Cons.IH [of "print (ReasoningStep summary) st"] by simp
  qed (use Cons.IH [of st] in simp_all)
qed

text \<open>Two lists with the same keys, the keys being distinct, pair up one to one.\<close>

lemma unique_partner:
  assumes "map f xs = map g ys" "distinct (map g ys)" "x \<in> set xs"
  shows "\<exists>!y. y \<in> set ys \<and> g y = f x"
proof -
  from assms(3) have "f x \<in> set (map g ys)" using assms(1) by (metis image_eqI set_map)
  then obtain y where y: "y \<in> set ys" "g y = f x" by auto
  moreover have "\<And>z. z \<in> set ys \<Longrightarrow> g z = f x \<Longrightarrow> z = y"
    using y assms(2) by (metis distinct_map inj_onD)
  ultimately show ?thesis by blast
qed

lemma set_interleave:
  "length xs = length ys \<Longrightarrow> set (interleave xs ys) = set xs \<union> set ys"
  unfolding interleave_def
  by (induction xs ys rule: list_induct2) auto

lemma interleave_Nil [simp]: "interleave [] ys = []"
  by (simp add: interleave_def)

text \<open>The interleaving puts the \<open>i\<close>-th pair at the places \<open>2 i\<close> and \<open>2 i + 1\<close>.\<close>

lemma interleave_Cons [simp]: "interleave (x # xs) (y # ys) = x # y # interleave xs ys"
  by (simp add: interleave_def)



text \<open>An output list without function calls: no output, and no tool is called.\<close>

lemma invoke_no_calls:
  "filter is_function_call items = [] \<Longrightarrow>
   fst (invoke_functions_from_response loads tm items st) = Inr []
   \<and> world (snd (invoke_functions_from_response loads tm items st)) = world st"
  by (induction loads tm items st rule: invoke_functions_from_response.induct)
     (auto simp: print_def)

lemma capture_reasoning_conversation:
  "conversation (capture_reasoning reasoning st) = conversation st @ reasoning"
  by (simp add: capture_reasoning_def print_def Let_def)

lemma capture_reasoning_world: "world (capture_reasoning reasoning st) = world st"
  by (simp add: capture_reasoning_def print_def Let_def)

lemma capture_messages_conversation:
  "conversation (capture_messages resp messages st) = conversation st @ messages"
  by (simp add: capture_messages_def print_def Let_def)

lemma capture_messages_world: "world (capture_messages resp messages st) = world st"
  by (simp add: capture_messages_def print_def Let_def)

lemma capture_messages_stdout:
  "messages \<noteq> [] \<Longrightarrow> last (stdout (capture_messages resp messages st)) = Line (output_text resp)"
  by (simp add: capture_messages_def print_def Let_def)

text \<open>
  The block of the function calls: when the function returns its outputs, the block appends
  them interleaved with the calls; when an exception leaves the function, it leaves the block.
\<close>

lemma capture_function_calls_returned:
  assumes "fst (invoke_functions_from_response loads tm (output_items resp) st) = Inr outs"
  shows "fst (capture_function_calls loads tm resp
                (filter is_function_call (output_items resp)) st) = None"
    and "conversation (snd (capture_function_calls loads tm resp
                              (filter is_function_call (output_items resp)) st))
           = conversation st @ interleave (filter is_function_call (output_items resp)) outs"
proof -
  obtain st1 where inv:
    "invoke_functions_from_response loads tm (output_items resp) st = (Inr outs, st1)"
    using assms by (cases "invoke_functions_from_response loads tm (output_items resp) st") simp
  have c: "conversation st1 = conversation st"
    using invoke_keeps_conversation [of loads tm "output_items resp" st] inv by simp
  show "fst (capture_function_calls loads tm resp
               (filter is_function_call (output_items resp)) st) = None"
    by (simp add: capture_function_calls_def inv Let_def)
  show "conversation (snd (capture_function_calls loads tm resp
                             (filter is_function_call (output_items resp)) st))
           = conversation st @ interleave (filter is_function_call (output_items resp)) outs"
    by (simp add: capture_function_calls_def inv Let_def c)
qed

lemma capture_function_calls_escaped:
  assumes "invoke_functions_from_response loads tm (output_items resp) st = (Inl x, st1)"
  shows "capture_function_calls loads tm resp
           (filter is_function_call (output_items resp)) st = (Some x, st1)"
proof -
  have "filter is_function_call (output_items resp) \<noteq> []"
    using invoke_no_calls [of "output_items resp" loads tm st] assms by auto
  then show ?thesis by (simp add: capture_function_calls_def assms)
qed

text \<open>
  A pass of the response loop whose call of the endpoint returned and whose tools let no
  exception through: whether it goes round again, and what it appended.
\<close>

lemma response_round_success:
  assumes "create (conversation st) None (world st) = (Inr resp, w)"
      and "fst (invoke_functions_from_response loads tm (output_items resp)
                  (tools_start resp w st)) = Inr outs"
  shows "fst (response_round create loads tm st)
           = Inr (if filter is_function_call (output_items resp) = [] then Break else Continue)"
    and "conversation (snd (response_round create loads tm st))
           = conversation st @ filter is_reasoning (output_items resp)
               @ interleave (filter is_function_call (output_items resp)) outs
               @ filter is_message (output_items resp)"
proof -
  let ?st2 = "tools_start resp w st"
  let ?fcs = "filter is_function_call (output_items resp)"
  obtain st3 where cf: "capture_function_calls loads tm resp ?fcs ?st2 = (None, st3)"
    using capture_function_calls_returned(1) [OF assms(2)]
    by (cases "capture_function_calls loads tm resp ?fcs ?st2") simp
  have c3: "conversation st3
              = conversation st @ filter is_reasoning (output_items resp) @ interleave ?fcs outs"
    using capture_function_calls_returned(2) [OF assms(2)] cf
    by (simp add: tools_start_def capture_reasoning_conversation)
  have rr: "response_round create loads tm st
              = (Inr (if length ?fcs = 0 then Break else Continue),
                 capture_messages resp (filter is_message (output_items resp)) st3)"
    using assms(1) cf by (simp add: response_round_def Let_def tools_start_def)
  show "fst (response_round create loads tm st)
           = Inr (if ?fcs = [] then Break else Continue)"
    by (simp add: rr)
  show "conversation (snd (response_round create loads tm st))
           = conversation st @ filter is_reasoning (output_items resp)
               @ interleave ?fcs outs @ filter is_message (output_items resp)"
    by (simp add: rr capture_messages_conversation c3)
qed

lemma response_round_escape:
  assumes "create (conversation st) None (world st) = (Inr resp, w)"
      and "invoke_functions_from_response loads tm (output_items resp)
             (tools_start resp w st) = (Inl x, st1)"
  shows "response_round create loads tm st = (Inr (Escape x), st1)"
  using assms(1) capture_function_calls_escaped [OF assms(2)]
  by (simp add: response_round_def Let_def tools_start_def)

lemma response_round_failure:
  assumes "create (conversation st) None (world st) = (Inl err, w)"
  shows "response_round create loads tm st = (Inl err, st\<lparr>world := w\<rparr>)"
  using assms by (simp add: response_round_def)

lemma response_round_break:
  assumes "create (conversation st) None (world st) = (Inr resp, w)"
      and "filter is_function_call (output_items resp) = []"
  shows "response_round create loads tm st =
           (Inr Break, capture_messages resp (filter is_message (output_items resp))
                         (tools_start resp w st))"
  using assms
  by (simp add: response_round_def Let_def capture_function_calls_def tools_start_def)

text \<open>A function call whose tool is not registered, anywhere in the output list.\<close>

lemma invoke_unregistered:
  assumes "tool_mapping nm = None"
  shows "invoke_functions_from_response loads tool_mapping
           (before @ FunctionCall cid nm args # after) st =
         (case invoke_functions_from_response loads tool_mapping before st of
            (Inl x, st1) \<Rightarrow> (Inl x, st1)
          | (Inr outs1, st1) \<Rightarrow>
              (case invoke_functions_from_response loads tool_mapping after
                      (print (Line (no_tool_registered nm)) st1) of
                 (Inl x, st2) \<Rightarrow> (Inl x, st2)
               | (Inr outs2, st2) \<Rightarrow>
                   (Inr (outs1 @ FunctionCallOutput cid (no_tool_registered nm) # outs2),
                    st2)))"
  using assms
  by (simp add: invoke_append call_tool_def Let_def split: prod.splits sum.splits)

text \<open>A registered tool that fails, in either way, and one whose exception is not caught.\<close>

lemma call_tool_registered_failure:
  assumes "tool_mapping nm = Some target_tool"
      and "loads args = Inl e
           \<or> (\<exists>arguments. loads args = Inr arguments
                 \<and> fst (target_tool arguments (world st)) = Raised e)"
  shows "fst (call_tool loads tool_mapping nm args st) = Inr (error_executing nm e)"
  using assms
  by (auto simp: call_tool_def Let_def print_def split: prod.splits outcome.splits sum.splits)

lemma call_tool_escaped:
  assumes "tool_mapping nm = Some target_tool"
      and "loads args = Inr arguments"
      and "fst (target_tool arguments (world st)) = Escaped x"
  shows "fst (call_tool loads tool_mapping nm args st) = Inl x"
  using assms
  by (auto simp: call_tool_def Let_def print_def split: prod.splits outcome.splits sum.splits)

text \<open>
  The cell that came before the function raises on a tool that is not registered; the
  function, which the loops call, does not.
\<close>

lemma inline_cell_unregistered:
  assumes "tool_mapping nm = None"
  shows "inline_cell loads tool_mapping
           (resp\<lparr>output_items := [FunctionCall cid nm args]\<rparr>) w
         = (Inl (ValueError (''No tool found for function call: '' @ nm)), w)"
  using assms by (simp add: inline_cell_def)

text \<open>The log of the recording tools, and that recording changes nothing else.\<close>

lemma only_exceptions_recording:
  "only_exceptions tm \<Longrightarrow> only_exceptions (recording tm)"
  unfolding only_exceptions_def recording_def
  by (auto split: option.splits prod.splits) (metis fst_conv)

lemma call_tool_recording:
  "snd (world (snd (call_tool loads (recording tm) nm args st)))
     = snd (world st) @ requested_call loads tm (FunctionCall cid nm args)"
  by (auto simp: call_tool_def recording_def Let_def print_def
           split: option.splits sum.splits prod.splits outcome.splits)

lemma call_tool_without_log:
  "call_tool loads tm nm args (without_log st)
     = (fst (call_tool loads (recording tm) nm args st),
        without_log (snd (call_tool loads (recording tm) nm args st)))"
  by (auto simp: call_tool_def recording_def Let_def print_def without_log_def
           split: option.splits sum.splits prod.splits outcome.splits)

lemma invoke_recording:
  "\<exists>made. snd (world (snd (invoke_functions_from_response loads (recording tm) items st)))
            = snd (world st) @ made
         \<and> prefix made (requested_calls loads tm items)
         \<and> (\<forall>results. fst (invoke_functions_from_response loads (recording tm) items st)
                         = Inr results
              \<longrightarrow> made = requested_calls loads tm items)"
proof (induction items arbitrary: st)
  case Nil
  then show ?case by (simp add: requested_calls_def)
next
  case (Cons it items)
  show ?case
  proof (cases it)
    case (FunctionCall cid nm args)
    obtain out st1 where ct: "call_tool loads (recording tm) nm args st = (out, st1)"
      by (cases "call_tool loads (recording tm) nm args st")
    have l1: "snd (world st1) = snd (world st) @ requested_call loads tm it"
      using call_tool_recording [of loads tm nm args st cid] ct FunctionCall by simp
    have rc: "requested_calls loads tm (it # items)
                = requested_call loads tm it @ requested_calls loads tm items"
      by (simp add: requested_calls_def)
    show ?thesis
    proof (cases out)
      case (Inl x)
      then have "invoke_functions_from_response loads (recording tm) (it # items) st
                   = (Inl x, st1)"
        using ct FunctionCall by simp
      then show ?thesis
        using l1 rc by (intro exI [of _ "requested_call loads tm it"]) simp
    next
      case (Inr tool_output)
      obtain r st2 where
        rest: "invoke_functions_from_response loads (recording tm) items st1 = (r, st2)"
        by (cases "invoke_functions_from_response loads (recording tm) items st1")
      from Cons.IH [of st1] rest obtain made where
        m1: "snd (world st2) = snd (world st1) @ made"
        and m2: "prefix made (requested_calls loads tm items)"
        and m3: "\<forall>results. r = Inr results \<longrightarrow> made = requested_calls loads tm items"
        by auto
      have whole: "invoke_functions_from_response loads (recording tm) (it # items) st
                     = (case r of Inl x \<Rightarrow> Inl x
                        | Inr ms \<Rightarrow> Inr (FunctionCallOutput cid tool_output # ms), st2)"
        using ct Inr rest FunctionCall by (simp split: sum.splits)
      show ?thesis
        unfolding whole rc
        using l1 m1 m2 m3
        by (intro exI [of _ "requested_call loads tm it @ made"])
           (auto split: sum.splits)
    qed
  next
    case (Reasoning rid summary)
    then show ?thesis
      using Cons.IH [of "print (ReasoningStep summary) st"]
      by (simp add: requested_calls_def print_def)
  qed (use Cons.IH [of st] in \<open>simp_all add: requested_calls_def\<close>)
qed

lemma invoke_without_log:
  "invoke_functions_from_response loads tm items (without_log st)
     = (fst (invoke_functions_from_response loads (recording tm) items st),
        without_log (snd (invoke_functions_from_response loads (recording tm) items st)))"
proof (induction items arbitrary: st)
  case Nil
  then show ?case by simp
next
  case (Cons it items)
  show ?case
  proof (cases it)
    case (FunctionCall cid nm args)
    obtain out st1 where ct: "call_tool loads (recording tm) nm args st = (out, st1)"
      by (cases "call_tool loads (recording tm) nm args st")
    have ct': "call_tool loads tm nm args (without_log st) = (out, without_log st1)"
      using call_tool_without_log [of loads tm nm args st] ct by simp
    show ?thesis
    proof (cases out)
      case (Inl x)
      with ct ct' FunctionCall show ?thesis by simp
    next
      case (Inr tool_output)
      obtain r st2 where
        rest: "invoke_functions_from_response loads (recording tm) items st1 = (r, st2)"
        by (cases "invoke_functions_from_response loads (recording tm) items st1")
      have rest': "invoke_functions_from_response loads tm items (without_log st1)
                     = (r, without_log st2)"
        using Cons.IH [of st1] rest by simp
      show ?thesis
        using ct ct' Inr rest rest' FunctionCall by (cases r) simp_all
    qed
  next
    case (Reasoning rid summary)
    have "print (ReasoningStep summary) (without_log st)
            = without_log (print (ReasoningStep summary) st)"
      by (simp add: print_def without_log_def)
    then show ?thesis
      using Cons.IH [of "print (ReasoningStep summary) st"] Reasoning by simp
  qed (use Cons.IH [of st] in simp_all)
qed

section \<open>Facts about the response loop\<close>

lemma after_rounds_loop:
  "after_rounds create loads tm n st = Some st' \<Longrightarrow>
   response_loop create loads tm st = response_loop create loads tm st'"
proof (induction n arbitrary: st)
  case 0
  then show ?case by simp
next
  case (Suc n)
  obtain r st1 where rr: "response_round create loads tm st = (r, st1)"
    by (cases "response_round create loads tm st")
  with Suc.prems have r: "r = Inr Continue" and ar: "after_rounds create loads tm n st1 = Some st'"
    by (auto split: sum.splits control.splits)
  have "response_loop create loads tm st = response_loop create loads tm st1"
    by (subst response_loop.simps) (simp add: rr r)
  then show ?case using Suc.IH [OF ar] by simp
qed

lemma response_loop_stops:
  assumes "fst (response_round create loads tm st) \<noteq> Inr Continue"
  shows "\<exists>fin. response_loop create loads tm st
                 = Some (fin, snd (response_round create loads tm st))"
  using assms
  by (subst response_loop.simps)
     (auto split: prod.splits sum.splits control.splits)


lemma response_loop_returns_ends:
  assumes "response_loop create loads tm st = Some res"
  shows "\<exists>n st'. after_rounds create loads tm n st = Some st'
            \<and> fst (response_round create loads tm st') \<noteq> Inr Continue"
  using assms
proof (induction create loads tm st res rule: response_loop.raw_induct [rotated 1, consumes 1])
  case (1 loop create loads tm st res)
  show ?case
  proof (cases "fst (response_round create loads tm st) = Inr Continue")
    case False
    then have "after_rounds create loads tm 0 st = Some st
               \<and> fst (response_round create loads tm st) \<noteq> Inr Continue" by simp
    then show ?thesis by blast
  next
    case True
    obtain st1 where rr: "response_round create loads tm st = (Inr Continue, st1)"
      using True by (cases "response_round create loads tm st") auto
    with 1(2) have "loop create loads tm st1 = Some res" by simp
    from 1(1) [OF this] obtain n st' where
      "after_rounds create loads tm n st1 = Some st'"
      "fst (response_round create loads tm st') \<noteq> Inr Continue" by blast
    then have "after_rounds create loads tm (Suc n) st = Some st'
               \<and> fst (response_round create loads tm st') \<noteq> Inr Continue"
      using rr by simp
    then show ?thesis by blast
  qed
qed

text \<open>
  A pass does not go round again exactly when the endpoint raises, or its response has no
  function call, or an exception of a tool leaves \<^verbatim>\<open>invoke_functions_from_response\<close>.
\<close>

lemma round_ends_iff:
  "fst (response_round create loads tm st) \<noteq> Inr Continue
   \<longleftrightarrow> (\<exists>err w. create (conversation st) None (world st) = (Inl err, w))
     \<or> (\<exists>resp w. create (conversation st) None (world st) = (Inr resp, w)
           \<and> (filter is_function_call (output_items resp) = []
              \<or> (\<exists>x. fst (invoke_functions_from_response loads tm (output_items resp)
                            (tools_start resp w st)) = Inl x)))"
proof (cases "create (conversation st) None (world st)")
  case (Pair r w)
  show ?thesis
  proof (cases r)
    case (Inl err)
    with Pair show ?thesis
      using response_round_failure [of create st err w loads tm] by simp
  next
    case (Inr resp)
    with Pair have c: "create (conversation st) None (world st) = (Inr resp, w)" by simp
    obtain r' st1 where inv:
      "invoke_functions_from_response loads tm (output_items resp) (tools_start resp w st)
         = (r', st1)"
      by (cases "invoke_functions_from_response loads tm (output_items resp)
                   (tools_start resp w st)")
    show ?thesis
    proof (cases r')
      case (Inl x)
      with inv show ?thesis
        using response_round_escape [where create = create and st = st, OF c] c by simp
    next
      case (Inr outs)
      with inv show ?thesis
        using response_round_success(1) [where create = create and st = st and resp = resp
                and w = w and loads = loads and tm = tm and outs = outs, OF c] c
        by simp
    qed
  qed
qed

text \<open>
  With an endpoint that asks for a tool call in every response, and tools that raise
  instances of \<^verbatim>\<open>Exception\<close> only, every pass goes round again and neither loop returns.
\<close>

lemma always_requesting_round:
  assumes "\<forall>input w. \<exists>resp w'. create input None w = (Inr resp, w')
                         \<and> filter is_function_call (output_items resp) \<noteq> []"
      and "only_exceptions tm"
  shows "fst (response_round create loads tm st) = Inr Continue"
proof -
  obtain resp w where c: "create (conversation st) None (world st) = (Inr resp, w)"
    and ne: "filter is_function_call (output_items resp) \<noteq> []"
    using assms(1) by blast
  obtain outs where "fst (invoke_functions_from_response loads tm (output_items resp)
                            (tools_start resp w st)) = Inr outs"
    using invoke_returns [OF assms(2), of loads "output_items resp" "tools_start resp w st"]
    by auto
  from response_round_success(1) [where create = create and st = st, OF c this] ne
  show ?thesis by simp
qed

lemma always_requesting_never_returns:
  assumes "\<forall>input w. \<exists>resp w'. create input None w = (Inr resp, w')
                         \<and> filter is_function_call (output_items resp) \<noteq> []"
      and "only_exceptions tm"
  shows "response_loop create loads tm st = None"
proof -
  have "\<not> ((\<forall>input w. \<exists>resp w'. create input None w = (Inr resp, w')
                \<and> filter is_function_call (output_items resp) \<noteq> [])
            \<and> only_exceptions tm)"
    if "response_loop create loads tm st = Some res" for res
    using that
  proof (induction create loads tm st res
          rule: response_loop.raw_induct [rotated 1, consumes 1])
    case (1 loop create loads tm st res)
    show ?case
    proof
      assume h: "(\<forall>input w. \<exists>resp w'. create input None w = (Inr resp, w')
                    \<and> filter is_function_call (output_items resp) \<noteq> [])
                 \<and> only_exceptions tm"
      then have "fst (response_round create loads tm st) = Inr Continue"
        using always_requesting_round [of create tm loads st] by blast
      then obtain st1 where rr: "response_round create loads tm st = (Inr Continue, st1)"
        by (cases "response_round create loads tm st") auto
      with 1(2) have "loop create loads tm st1 = Some res" by simp
      from 1(1) [OF this] h show False by blast
    qed
  qed
  with assms show ?thesis
    by (cases "response_loop create loads tm st") auto
qed

lemma always_requesting_chained_never_returns:
  assumes "\<forall>input previous w. \<exists>resp w'. create input previous w = (Inr resp, w')
                         \<and> filter is_function_call (output_items resp) \<noteq> []"
      and "only_exceptions tm"
      and "filter is_function_call (output_items resp) \<noteq> []"
  shows "chained_loop create loads tm resp st = None"
proof -
  have "\<not> ((\<forall>input previous w. \<exists>resp w'. create input previous w = (Inr resp, w')
                \<and> filter is_function_call (output_items resp) \<noteq> [])
            \<and> only_exceptions tm
            \<and> filter is_function_call (output_items resp) \<noteq> [])"
    if "chained_loop create loads tm resp st = Some res" for res
    using that
  proof (induction create loads tm resp st res
          rule: chained_loop.raw_induct [rotated 1, consumes 1])
    case (1 loop create loads tm resp st res)
    show ?case
    proof
      assume h: "(\<forall>input previous w. \<exists>resp w'. create input previous w = (Inr resp, w')
                    \<and> filter is_function_call (output_items resp) \<noteq> [])
                 \<and> only_exceptions tm
                 \<and> filter is_function_call (output_items resp) \<noteq> []"
      obtain outs st1 where
        inv: "invoke_functions_from_response loads tm (output_items resp) st = (Inr outs, st1)"
        using invoke_returns [of tm loads "output_items resp" st] h by blast
      have "length outs = length (filter is_function_call (output_items resp))"
        using invoke_length [of loads tm "output_items resp" st outs] inv by simp
      with h have ne: "length outs \<noteq> 0" by simp
      let ?st2 = "print (Line ''More reasoning required, continuing...'') st1"
      obtain resp' w' where
        c: "create outs (Some (response_id resp)) (world ?st2) = (Inr resp', w')"
        and ne': "filter is_function_call (output_items resp') \<noteq> []"
        using h by blast
      have "loop create loads tm resp' (?st2\<lparr>world := w'\<rparr>) = Some res"
        using 1(2) inv ne c by (simp add: Let_def)
      from 1(1) [OF this] h ne' show False by blast
    qed
  qed
  with assms show ?thesis
    by (cases "chained_loop create loads tm resp st") auto
qed

text \<open>The conversation of a later state starts with the conversation of an earlier one.\<close>

lemma response_round_prefix:
  "prefix (conversation st) (conversation (snd (response_round create loads tm st)))"
proof (cases "create (conversation st) None (world st)")
  case (Pair r w)
  show ?thesis
  proof (cases r)
    case (Inl err)
    with Pair show ?thesis
      using response_round_failure [of create st err w loads tm] by simp
  next
    case (Inr resp)
    with Pair have c: "create (conversation st) None (world st) = (Inr resp, w)" by simp
    obtain r' st1 where inv:
      "invoke_functions_from_response loads tm (output_items resp) (tools_start resp w st)
         = (r', st1)"
      by (cases "invoke_functions_from_response loads tm (output_items resp)
                   (tools_start resp w st)")
    show ?thesis
    proof (cases r')
      case (Inl x)
      have "conversation st1 = conversation (tools_start resp w st)"
        using invoke_keeps_conversation
                [of loads tm "output_items resp" "tools_start resp w st"] inv
        by simp
      then have "conversation st1 = conversation st @ filter is_reasoning (output_items resp)"
        by (simp add: tools_start_def capture_reasoning_conversation)
      with Inl inv show ?thesis
        using response_round_escape [where create = create and st = st, OF c] by simp
    next
      case (Inr outs)
      with inv show ?thesis
        using response_round_success(2) [where create = create and st = st and resp = resp
                and w = w and loads = loads and tm = tm and outs = outs, OF c]
        by simp
    qed
  qed
qed

lemma response_loop_prefix:
  assumes "response_loop create loads tm st = Some (fin, st')"
  shows "prefix (conversation st) (conversation st')"
proof -
  have "prefix (conversation st) (conversation (snd res))"
    if "response_loop create loads tm st = Some res" for res
    using that
  proof (induction create loads tm st res
          rule: response_loop.raw_induct [rotated 1, consumes 1])
    case (1 loop create loads tm st res)
    obtain r st1 where rr: "response_round create loads tm st = (r, st1)"
      by (cases "response_round create loads tm st")
    have p1: "prefix (conversation st) (conversation st1)"
      using response_round_prefix [of st create loads tm] rr by simp
    show ?case
    proof (cases r)
      case (Inl err)
      with 1(2) rr p1 show ?thesis by auto
    next
      case (Inr c)
      show ?thesis
      proof (cases c)
        case Break
        with 1(2) rr p1 Inr show ?thesis by auto
      next
        case (Escape x)
        with 1(2) rr p1 Inr show ?thesis by auto
      next
        case Continue
        with 1(2) rr Inr have "loop create loads tm st1 = Some res" by simp
        from 1(1) [OF this] p1 show ?thesis by (rule prefix_order.trans [rotated])
      qed
    qed
  qed
  from this [OF assms] show ?thesis by simp
qed

lemma start_message_conversation:
  "conversation (start_message message st) = conversation st @ [Message ''user'' message]"
  by (simp add: start_message_def print_def Let_def)

lemma user_messages_loop_prefix:
  "user_messages_loop create loads tm user_messages st = Some (fin, st') \<Longrightarrow>
   prefix (conversation st) (conversation st')"
proof (induction user_messages arbitrary: st)
  case Nil
  then show ?case by simp
next
  case (Cons message rest)
  let ?st2 = "start_message message st"
  have p0: "prefix (conversation st) (conversation ?st2)"
    by (simp add: start_message_conversation)
  show ?case
  proof (cases "response_loop create loads tm ?st2")
    case None
    with Cons.prems show ?thesis by simp
  next
    case (Some res)
    obtain f st3 where res: "res = (f, st3)" by (cases res)
    have p1: "prefix (conversation ?st2) (conversation st3)"
      using response_loop_prefix [of create loads tm ?st2 f st3] Some res by simp
    show ?thesis
    proof (cases f)
      case Finished
      with Cons.prems Some res
      have "user_messages_loop create loads tm rest st3 = Some (fin, st')"
        by simp
      from Cons.IH [OF this] have "prefix (conversation st3) (conversation st')" .
      with p0 p1 show ?thesis by (meson prefix_order.trans)
    next
      case (Propagated err)
      with Cons.prems Some res have "st' = st3" by simp
      with p0 p1 show ?thesis by (meson prefix_order.trans)
    next
      case (ToolEscaped x)
      with Cons.prems Some res have "st' = st3" by simp
      with p0 p1 show ?thesis by (meson prefix_order.trans)
    qed
  qed
qed

section \<open>Evaluation of the concrete tools and endpoints\<close>

lemmas example_defs = london_arguments_def tokyo_arguments_def example_loads_def
  example_tools_def interrupted_tools_def ping_state_def two_calls_def first_response_def
  pong_response_def scripted_endpoint_def search_response_def flaky_endpoint_def
  insistent_endpoint_def insistent_response_def after_first_round_def after_pong_def
  after_flaky_round_def after_interrupt_def empty_state_def

lemmas run_defs = call_tool_def print_def no_tool_registered_def error_executing_def Let_def

lemmas round_defs = response_round_def capture_reasoning_def capture_function_calls_def
  capture_messages_def interleave_def output_text_def

lemma example_tools_only_exceptions: "only_exceptions example_tools"
  unfolding only_exceptions_def example_tools_def
  by (auto split: if_splits option.splits)

lemma two_calls_outputs:
  "fst (invoke_functions_from_response example_loads example_tools two_calls st) =
     Inr [FunctionCallOutput ''call_1'' ''London ID: 42'',
          FunctionCallOutput ''call_2''
            ''ERROR - No tool registered for function call: mystery'']"
  by (simp add: example_defs run_defs)

lemma scripted_first_call:
  "scripted_endpoint (conversation ping_state) None (world ping_state)
     = (Inr first_response, 1)"
  by (simp add: scripted_endpoint_def ping_state_def)

lemma scripted_first_round:
  "response_round scripted_endpoint example_loads example_tools ping_state
     = (Inr Continue, after_first_round)"
  by (simp add: round_defs example_defs run_defs)

lemma scripted_second_call:
  "scripted_endpoint (conversation after_first_round) None (world after_first_round)
     = (Inr pong_response, 3)"
  by (simp add: scripted_endpoint_def after_first_round_def)

lemma scripted_second_round:
  "response_round scripted_endpoint example_loads example_tools after_first_round
     = (Inr Break, after_pong)"
  by (simp add: round_defs example_defs run_defs)

lemma scripted_after_one:
  "after_rounds scripted_endpoint example_loads example_tools (Suc 0) ping_state
     = Some after_first_round"
  by (simp add: scripted_first_round)

lemma scripted_loop:
  "response_loop scripted_endpoint example_loads example_tools ping_state
     = Some (Finished, after_pong)"
proof -
  have "response_loop scripted_endpoint example_loads example_tools after_first_round
          = Some (Finished, after_pong)"
    by (subst response_loop.simps) (simp add: scripted_second_round)
  then show ?thesis using after_rounds_loop [OF scripted_after_one] by simp
qed

lemma ping_state_start: "start_message ''ping'' empty_state = ping_state"
  by (simp add: start_message_def print_def empty_state_def ping_state_def)

lemma scripted_cell:
  "user_messages_loop scripted_endpoint example_loads example_tools [''ping''] empty_state
     = Some (Finished, after_pong)"
  by (simp add: ping_state_start scripted_loop)

lemma flaky_first_round:
  "response_round flaky_endpoint example_loads example_tools ping_state
     = (Inr Continue, after_flaky_round)"
  by (simp add: round_defs example_defs run_defs)

lemma flaky_after_one:
  "after_rounds flaky_endpoint example_loads example_tools (Suc 0) ping_state
     = Some after_flaky_round"
  by (simp add: flaky_first_round)

lemma flaky_second_call:
  "flaky_endpoint (conversation after_flaky_round) None (world after_flaky_round)
     = (Inl ''Request timed out.'', 3)"
  by (simp add: flaky_endpoint_def after_flaky_round_def)

lemma interrupted_round:
  "response_round flaky_endpoint example_loads interrupted_tools ping_state
     = (Inr (Escape ''KeyboardInterrupt''), after_interrupt)"
  by (simp add: round_defs example_defs run_defs)

lemma insistent_always_requests:
  "\<forall>input previous w. \<exists>resp w'. insistent_endpoint input previous w = (Inr resp, w')
      \<and> filter is_function_call (output_items resp) \<noteq> []"
  by (simp add: insistent_endpoint_def insistent_response_def)

section \<open>The properties\<close>

subsection \<open>C1: when the response loop ends\<close>

text \<open>
  C1, as the code has it. The response loop has no bound on its rounds and raises no error of
  its own. It ends exactly when, after some number of passes that went round again, the
  endpoint raises, or the endpoint returns a response without a function call, or an
  exception that is no instance of \<^verbatim>\<open>Exception\<close> leaves a tool. And with an endpoint that
  asks for a tool call in every response, and tools that raise instances of
  \<^verbatim>\<open>Exception\<close> only, it never ends.
\<close>

theorem response_loop_ends_exactly_when:
  "((\<exists>res. response_loop create loads tool_mapping st = Some res)
    \<longleftrightarrow> (\<exists>n st'. after_rounds create loads tool_mapping n st = Some st'
           \<and> ((\<exists>err w. create (conversation st') None (world st') = (Inl err, w))
              \<or> (\<exists>resp w. create (conversation st') None (world st') = (Inr resp, w)
                    \<and> (filter is_function_call (output_items resp) = []
                       \<or> (\<exists>x. fst (invoke_functions_from_response loads tool_mapping
                                     (output_items resp) (tools_start resp w st'))
                                = Inl x))))))
   \<and> ((\<forall>input w. \<exists>resp w'. create input None w = (Inr resp, w')
                      \<and> filter is_function_call (output_items resp) \<noteq> [])
        \<and> only_exceptions tool_mapping
      \<longrightarrow> response_loop create loads tool_mapping st = None)"
proof (intro conjI impI)
  have "(\<exists>res. response_loop create loads tool_mapping st = Some res)
        \<longleftrightarrow> (\<exists>n st'. after_rounds create loads tool_mapping n st = Some st'
               \<and> fst (response_round create loads tool_mapping st') \<noteq> Inr Continue)"
  proof
    assume "\<exists>res. response_loop create loads tool_mapping st = Some res"
    then show "\<exists>n st'. after_rounds create loads tool_mapping n st = Some st'
                 \<and> fst (response_round create loads tool_mapping st') \<noteq> Inr Continue"
      using response_loop_returns_ends by blast
  next
    assume "\<exists>n st'. after_rounds create loads tool_mapping n st = Some st'
                 \<and> fst (response_round create loads tool_mapping st') \<noteq> Inr Continue"
    then obtain n st' where ar: "after_rounds create loads tool_mapping n st = Some st'"
      and ne: "fst (response_round create loads tool_mapping st') \<noteq> Inr Continue" by blast
    show "\<exists>res. response_loop create loads tool_mapping st = Some res"
      using after_rounds_loop [OF ar] response_loop_stops [OF ne] by auto
  qed
  then show "(\<exists>res. response_loop create loads tool_mapping st = Some res)
    \<longleftrightarrow> (\<exists>n st'. after_rounds create loads tool_mapping n st = Some st'
           \<and> ((\<exists>err w. create (conversation st') None (world st') = (Inl err, w))
              \<or> (\<exists>resp w. create (conversation st') None (world st') = (Inr resp, w)
                    \<and> (filter is_function_call (output_items resp) = []
                       \<or> (\<exists>x. fst (invoke_functions_from_response loads tool_mapping
                                     (output_items resp) (tools_start resp w st'))
                                = Inl x)))))"
    unfolding round_ends_iff .
next
  assume "(\<forall>input w. \<exists>resp w'. create input None w = (Inr resp, w')
                      \<and> filter is_function_call (output_items resp) \<noteq> [])
          \<and> only_exceptions tool_mapping"
  then show "response_loop create loads tool_mapping st = None"
    using always_requesting_never_returns [of create tool_mapping loads st] by blast
qed

text \<open>
  The statement with \<open>scripted_endpoint\<close>, whose second response has no function call, so
  that the loop ends, and with \<open>insistent_endpoint\<close>, with which it does not.
\<close>

theorem response_loop_ends_exactly_when_witness:
  "after_rounds scripted_endpoint example_loads example_tools (Suc 0) ping_state
     = Some after_first_round
   \<and> scripted_endpoint (conversation after_first_round) None (world after_first_round)
       = (Inr pong_response, 3)
   \<and> filter is_function_call (output_items pong_response) = []
   \<and> (\<exists>res. response_loop scripted_endpoint example_loads example_tools ping_state = Some res)
   \<and> only_exceptions example_tools
   \<and> response_loop insistent_endpoint example_loads example_tools ping_state = None"
proof -
  have h3: "filter is_function_call (output_items pong_response) = []"
    by (simp add: pong_response_def)
  have "\<exists>n st'. after_rounds scripted_endpoint example_loads example_tools n ping_state
                   = Some st'
          \<and> ((\<exists>err w. scripted_endpoint (conversation st') None (world st') = (Inl err, w))
             \<or> (\<exists>resp w. scripted_endpoint (conversation st') None (world st') = (Inr resp, w)
                   \<and> (filter is_function_call (output_items resp) = []
                      \<or> (\<exists>x. fst (invoke_functions_from_response example_loads example_tools
                                    (output_items resp) (tools_start resp w st'))
                               = Inl x))))"
    using scripted_after_one scripted_second_call h3 by blast
  then have ends: "\<exists>res. response_loop scripted_endpoint example_loads example_tools
                            ping_state = Some res"
    using response_loop_ends_exactly_when
            [of scripted_endpoint example_loads example_tools ping_state]
    by blast
  have never: "response_loop insistent_endpoint example_loads example_tools ping_state = None"
    using response_loop_ends_exactly_when
            [of insistent_endpoint example_loads example_tools ping_state]
          insistent_always_requests example_tools_only_exceptions
    by blast
  from scripted_after_one scripted_second_call h3 ends example_tools_only_exceptions never
  show ?thesis by (intro conjI)
qed

text \<open>
  C1 as stated fails: with an endpoint that asks for a tool call in every response, neither
  loop of the notebook ends within a number of rounds or fails; both run forever.
\<close>

theorem insistent_endpoint_counterexample:
  "response_loop insistent_endpoint example_loads example_tools ping_state = None
   \<and> chained_loop insistent_endpoint example_loads example_tools insistent_response ping_state
       = None"
proof
  show "response_loop insistent_endpoint example_loads example_tools ping_state = None"
    using always_requesting_never_returns [of insistent_endpoint example_tools]
          insistent_always_requests example_tools_only_exceptions
    by blast
next
  have "filter is_function_call (output_items insistent_response) \<noteq> []"
    by (simp add: insistent_response_def)
  then show "chained_loop insistent_endpoint example_loads example_tools insistent_response
          ping_state = None"
    using always_requesting_chained_never_returns [of insistent_endpoint example_tools]
          insistent_always_requests example_tools_only_exceptions
    by blast
qed

subsection \<open>C2: one result per request, with the request's call id\<close>

text \<open>
  C2. For every output list, with tools that raise instances of \<^verbatim>\<open>Exception\<close> only,
  \<^verbatim>\<open>invoke_functions_from_response\<close> returns, and the outputs it returns are as many as the
  function calls of the list, every one is a function call output, and the \<open>i\<close>-th output
  carries the call id of the \<open>i\<close>-th function call. When the call ids of the function calls
  are distinct (each request has its own), every output has the call id of exactly one
  request and every request the call id of exactly one output.
\<close>

theorem results_pair_with_requests:
  assumes "only_exceptions tool_mapping"
  shows "\<exists>results.
           fst (invoke_functions_from_response loads tool_mapping items st) = Inr results
         \<and> (let requests = filter is_function_call items
            in length results = length requests
             \<and> map call_id results = map call_id requests
             \<and> list_all is_function_call_output results
             \<and> (distinct (map call_id requests) \<longrightarrow>
                  (\<forall>res \<in> set results.
                     \<exists>!req. req \<in> set requests \<and> call_id req = call_id res)
                \<and> (\<forall>req \<in> set requests.
                     \<exists>!res. res \<in> set results \<and> call_id res = call_id req)))"
proof -
  define requests where "requests = filter is_function_call items"
  obtain results where
    ret: "fst (invoke_functions_from_response loads tool_mapping items st) = Inr results"
    using invoke_returns [OF assms, of loads items st] by auto
  have ids: "map call_id results = map call_id requests"
    unfolding requests_def using ret by (rule invoke_call_ids)
  have len: "length results = length requests"
    using ids by (rule map_eq_imp_length_eq)
  have outs: "list_all is_function_call_output results"
    using ret by (rule invoke_all_outputs)
  have bij: "(\<forall>res \<in> set results. \<exists>!req. req \<in> set requests \<and> call_id req = call_id res)
          \<and> (\<forall>req \<in> set requests. \<exists>!res. res \<in> set results \<and> call_id res = call_id req)"
    if d: "distinct (map call_id requests)"
  proof (intro conjI ballI)
    fix res assume "res \<in> set results"
    then show "\<exists>!req. req \<in> set requests \<and> call_id req = call_id res"
      using unique_partner [OF ids d] by blast
  next
    fix req assume "req \<in> set requests"
    moreover have "distinct (map call_id results)" using d ids by simp
    ultimately show "\<exists>!res. res \<in> set results \<and> call_id res = call_id req"
      using unique_partner [OF ids [symmetric]] by blast
  qed
  have "length results = length requests
      \<and> map call_id results = map call_id requests
      \<and> list_all is_function_call_output results
      \<and> (distinct (map call_id requests) \<longrightarrow>
           (\<forall>res \<in> set results. \<exists>!req. req \<in> set requests \<and> call_id req = call_id res)
         \<and> (\<forall>req \<in> set requests. \<exists>!res. res \<in> set results \<and> call_id res = call_id req))"
    using ids len outs bij by blast
  with ret show ?thesis
    unfolding Let_def requests_def [symmetric] by blast
qed

text \<open>
  The statement at the output list \<open>two_calls\<close>, whose two call ids are distinct: the only
  request with the call id of the second output is the second.
\<close>

theorem results_pair_with_requests_witness:
  "only_exceptions example_tools
   \<and> distinct (map call_id (filter is_function_call two_calls))
   \<and> fst (invoke_functions_from_response example_loads example_tools two_calls ping_state)
       = Inr [FunctionCallOutput ''call_1'' ''London ID: 42'',
              FunctionCallOutput ''call_2''
                ''ERROR - No tool registered for function call: mystery'']
   \<and> (\<exists>!req. req \<in> set (filter is_function_call two_calls) \<and> call_id req = ''call_2'')"
proof -
  let ?res = "FunctionCallOutput ''call_2''
                ''ERROR - No tool registered for function call: mystery''"
  have d: "distinct (map call_id (filter is_function_call two_calls))"
    by (simp add: two_calls_def)
  from results_pair_with_requests [OF example_tools_only_exceptions,
         of example_loads two_calls ping_state, unfolded Let_def]
  obtain results where
    ret: "fst (invoke_functions_from_response example_loads example_tools two_calls
                 ping_state) = Inr results"
    and t: "distinct (map call_id (filter is_function_call two_calls)) \<longrightarrow>
              (\<forall>res \<in> set results.
                 \<exists>!req. req \<in> set (filter is_function_call two_calls)
                          \<and> call_id req = call_id res)
            \<and> (\<forall>req \<in> set (filter is_function_call two_calls).
                 \<exists>!res. res \<in> set results \<and> call_id res = call_id req)"
    by blast
  have r: "results = [FunctionCallOutput ''call_1'' ''London ID: 42'', ?res]"
    using ret by (simp add: two_calls_outputs)
  then have m: "?res \<in> set results" by simp
  from t d have "\<forall>res \<in> set results.
      \<exists>!req. req \<in> set (filter is_function_call two_calls) \<and> call_id req = call_id res"
    by blast
  from bspec [OF this m]
  have u: "\<exists>!req. req \<in> set (filter is_function_call two_calls) \<and> call_id req = ''call_2''"
    by simp
  from example_tools_only_exceptions d ret r u show ?thesis
    by (intro conjI) simp_all
qed

subsection \<open>C3: a tool that is not registered\<close>

text \<open>
  C3. When a function call names a tool that is not in the registry,
  \<^verbatim>\<open>invoke_functions_from_response\<close> does not raise for it: the items before it are handled,
  the output for this call is the text
  \<^verbatim>\<open>ERROR - No tool registered for function call: <name>\<close>, the text is printed, and the items
  after it are handled. In the response loop, with tools that raise instances of
  \<^verbatim>\<open>Exception\<close> only, a response holding such a call does not end the loop: the pass goes
  round again, with the diagnostic output in the conversation.
\<close>

theorem unregistered_tool_yields_diagnostic:
  assumes "tool_mapping nm = None"
  shows "invoke_functions_from_response loads tool_mapping
           (before @ FunctionCall cid nm args # after) st =
         (case invoke_functions_from_response loads tool_mapping before st of
            (Inl x, st1) \<Rightarrow> (Inl x, st1)
          | (Inr outs1, st1) \<Rightarrow>
              (case invoke_functions_from_response loads tool_mapping after
                      (print (Line (no_tool_registered nm)) st1) of
                 (Inl x, st2) \<Rightarrow> (Inl x, st2)
               | (Inr outs2, st2) \<Rightarrow>
                   (Inr (outs1 @ FunctionCallOutput cid (no_tool_registered nm) # outs2),
                    st2)))
       \<and> (create (conversation st) None (world st) = (Inr resp, w)
            \<and> FunctionCall cid nm args \<in> set (output_items resp)
            \<and> only_exceptions tool_mapping \<longrightarrow>
          fst (response_round create loads tool_mapping st) = Inr Continue
            \<and> FunctionCallOutput cid (no_tool_registered nm)
                 \<in> set (conversation (snd (response_round create loads tool_mapping st))))"
proof (intro conjI impI)
  show "invoke_functions_from_response loads tool_mapping
           (before @ FunctionCall cid nm args # after) st =
         (case invoke_functions_from_response loads tool_mapping before st of
            (Inl x, st1) \<Rightarrow> (Inl x, st1)
          | (Inr outs1, st1) \<Rightarrow>
              (case invoke_functions_from_response loads tool_mapping after
                      (print (Line (no_tool_registered nm)) st1) of
                 (Inl x, st2) \<Rightarrow> (Inl x, st2)
               | (Inr outs2, st2) \<Rightarrow>
                   (Inr (outs1 @ FunctionCallOutput cid (no_tool_registered nm) # outs2),
                    st2)))"
    using assms by (rule invoke_unregistered)
next
  assume h: "create (conversation st) None (world st) = (Inr resp, w)
            \<and> FunctionCall cid nm args \<in> set (output_items resp)
            \<and> only_exceptions tool_mapping"
  then have c: "create (conversation st) None (world st) = (Inr resp, w)"
    and m: "FunctionCall cid nm args \<in> set (output_items resp)"
    and oe: "only_exceptions tool_mapping" by simp_all
  from m have ne: "filter is_function_call (output_items resp) \<noteq> []"
    unfolding filter_empty_conv using is_function_call.simps(1) by blast
  from m obtain xs ys where sp: "output_items resp = xs @ FunctionCall cid nm args # ys"
    by (auto dest: split_list)
  let ?start = "tools_start resp w st"
  obtain outs1 st1 where
    b: "invoke_functions_from_response loads tool_mapping xs ?start = (Inr outs1, st1)"
    using invoke_returns [OF oe] by blast
  obtain outs2 st2 where
    a: "invoke_functions_from_response loads tool_mapping ys
          (print (Line (no_tool_registered nm)) st1) = (Inr outs2, st2)"
    using invoke_returns [OF oe] by blast
  let ?outs = "outs1 @ FunctionCallOutput cid (no_tool_registered nm) # outs2"
  have ret: "fst (invoke_functions_from_response loads tool_mapping (output_items resp) ?start)
               = Inr ?outs"
    unfolding sp invoke_unregistered [where tool_mapping = tool_mapping and nm = nm, OF assms]
    by (simp add: a b)
  note s = response_round_success [where create = create and st = st and loads = loads
             and tm = tool_mapping, OF c ret]
  show "fst (response_round create loads tool_mapping st) = Inr Continue"
    using s(1) ne by simp
  have "length (filter is_function_call (output_items resp)) = length ?outs"
    using invoke_length [OF ret] by simp
  then have "FunctionCallOutput cid (no_tool_registered nm)
      \<in> set (interleave (filter is_function_call (output_items resp)) ?outs)"
    by (simp add: set_interleave)
  then show "FunctionCallOutput cid (no_tool_registered nm)
                 \<in> set (conversation (snd (response_round create loads tool_mapping st)))"
    unfolding s(2) by simp
qed

text \<open>
  The statement at the first response of \<open>scripted_endpoint\<close>, which asks for the tool
  \<^verbatim>\<open>mystery\<close>: the pass goes round again and the diagnostic is in the conversation.
\<close>

theorem unregistered_tool_yields_diagnostic_witness:
  "example_tools ''mystery'' = None
   \<and> scripted_endpoint (conversation ping_state) None (world ping_state)
       = (Inr first_response, 1)
   \<and> FunctionCall ''call_2'' ''mystery'' ''{}'' \<in> set (output_items first_response)
   \<and> only_exceptions example_tools
   \<and> fst (response_round scripted_endpoint example_loads example_tools ping_state) = Inr Continue
   \<and> FunctionCallOutput ''call_2'' ''ERROR - No tool registered for function call: mystery''
       \<in> set (conversation
                (snd (response_round scripted_endpoint example_loads example_tools ping_state)))"
proof -
  have h1: "example_tools ''mystery'' = None"
    by (simp add: example_tools_def)
  have h3: "FunctionCall ''call_2'' ''mystery'' ''{}'' \<in> set (output_items first_response)"
    by (simp add: first_response_def two_calls_def)
  show ?thesis
    using unregistered_tool_yields_diagnostic [where tool_mapping = example_tools
            and nm = "''mystery''" and create = scripted_endpoint and st = ping_state
            and resp = first_response and w = 1 and cid = "''call_2''" and args = "''{}''"
            and loads = example_loads and before = "[]" and after = "[]", OF h1]
          h1 scripted_first_call h3 example_tools_only_exceptions
    by (simp add: no_tool_registered_def)
qed

subsection \<open>C4: a registered tool that fails\<close>

text \<open>
  C4, as the code has it. The handler is \<^verbatim>\<open>except Exception\<close>. When the tool of a function
  call is registered and either \<^verbatim>\<open>json.loads\<close> raises on the arguments or the tool raises an
  instance of \<^verbatim>\<open>Exception\<close> when it is called, the failure is caught: the output for this
  call, under the call's id, is the text
  \<^verbatim>\<open>Error executing function call: <name>: <exception>\<close>, and the items after it are handled.
  When the tool raises what is no instance of \<^verbatim>\<open>Exception\<close>, that exception leaves
  \<^verbatim>\<open>invoke_functions_from_response\<close>.
\<close>

theorem failing_tool_yields_diagnostic:
  assumes "tool_mapping nm = Some target_tool"
      and "invoke_functions_from_response loads tool_mapping before st = (Inr outs1, st1)"
  shows "(loads args = Inl e
            \<or> (\<exists>arguments. loads args = Inr arguments
                  \<and> fst (target_tool arguments (world st1)) = Raised e)
          \<longrightarrow> (\<exists>st'. call_tool loads tool_mapping nm args st1
                         = (Inr (error_executing nm e), st')
                \<and> invoke_functions_from_response loads tool_mapping
                     (before @ FunctionCall cid nm args # after) st
                   = (case invoke_functions_from_response loads tool_mapping after st' of
                        (Inl x, st2) \<Rightarrow> (Inl x, st2)
                      | (Inr outs2, st2) \<Rightarrow>
                          (Inr (outs1 @ FunctionCallOutput cid (error_executing nm e) # outs2),
                           st2))))
       \<and> ((\<exists>arguments. loads args = Inr arguments
               \<and> fst (target_tool arguments (world st1)) = Escaped x)
          \<longrightarrow> fst (invoke_functions_from_response loads tool_mapping
                     (before @ FunctionCall cid nm args # after) st) = Inl x)"
proof (intro conjI impI)
  assume f: "loads args = Inl e
            \<or> (\<exists>arguments. loads args = Inr arguments
                  \<and> fst (target_tool arguments (world st1)) = Raised e)"
  obtain out st' where ct: "call_tool loads tool_mapping nm args st1 = (out, st')"
    by (cases "call_tool loads tool_mapping nm args st1")
  have out: "out = Inr (error_executing nm e)"
    using call_tool_registered_failure [where tool_mapping = tool_mapping and nm = nm
            and target_tool = target_tool and loads = loads and args = args and e = e
            and st = st1, OF assms(1) f] ct by simp
  have "invoke_functions_from_response loads tool_mapping
          (before @ FunctionCall cid nm args # after) st
        = (case invoke_functions_from_response loads tool_mapping after st' of
             (Inl x, st2) \<Rightarrow> (Inl x, st2)
           | (Inr outs2, st2) \<Rightarrow>
               (Inr (outs1 @ FunctionCallOutput cid (error_executing nm e) # outs2), st2))"
    using assms(2) ct out by (simp add: invoke_append split: prod.splits sum.splits)
  with ct out show "\<exists>st'. call_tool loads tool_mapping nm args st1
                         = (Inr (error_executing nm e), st')
                \<and> invoke_functions_from_response loads tool_mapping
                     (before @ FunctionCall cid nm args # after) st
                   = (case invoke_functions_from_response loads tool_mapping after st' of
                        (Inl x, st2) \<Rightarrow> (Inl x, st2)
                      | (Inr outs2, st2) \<Rightarrow>
                          (Inr (outs1 @ FunctionCallOutput cid (error_executing nm e) # outs2),
                           st2))"
    by blast
next
  assume "\<exists>arguments. loads args = Inr arguments
               \<and> fst (target_tool arguments (world st1)) = Escaped x"
  then obtain arguments where l: "loads args = Inr arguments"
    and e: "fst (target_tool arguments (world st1)) = Escaped x" by blast
  have "fst (call_tool loads tool_mapping nm args st1) = Inl x"
    using assms(1) l e by (rule call_tool_escaped)
  then obtain st' where "call_tool loads tool_mapping nm args st1 = (Inl x, st')"
    by (cases "call_tool loads tool_mapping nm args st1") simp
  then show "fst (invoke_functions_from_response loads tool_mapping
               (before @ FunctionCall cid nm args # after) st) = Inl x"
    using assms(2) by (simp add: invoke_append)
qed

text \<open>
  The statement at a call of \<^verbatim>\<open>web_search\<close> that raises \<^verbatim>\<open>Exception\<close>, at a call of
  \<^verbatim>\<open>get_city_uuid\<close> whose arguments are not JSON, and at a call of \<^verbatim>\<open>web_search\<close> that is
  interrupted.
\<close>

theorem failing_tool_yields_diagnostic_witness:
  "example_tools ''web_search'' = Some (\<lambda>arguments w. (Raised ''Connection error.'', Suc w))
   \<and> example_loads tokyo_arguments = Inr [(''query'', ''Tokyo climate'')]
   \<and> fst (invoke_functions_from_response example_loads example_tools
            [FunctionCall ''call_1'' ''web_search'' tokyo_arguments] ping_state)
       = Inr [FunctionCallOutput ''call_1''
                ''Error executing function call: web_search: Connection error.'']
   \<and> example_tools ''get_city_uuid'' \<noteq> None
   \<and> example_loads ''{''
       = Inl ''Expecting property name enclosed in double quotes: line 1 column 2 (char 1)''
   \<and> fst (invoke_functions_from_response example_loads example_tools
            [FunctionCall ''call_2'' ''get_city_uuid'' ''{''] ping_state)
       = Inr [FunctionCallOutput ''call_2''
                (''Error executing function call: get_city_uuid: ''
                 @ ''Expecting property name enclosed in double quotes: line 1 column 2 (char 1)'')]
   \<and> interrupted_tools ''web_search''
       = Some (\<lambda>arguments w. (Escaped ''KeyboardInterrupt'', Suc w))
   \<and> fst (invoke_functions_from_response example_loads interrupted_tools
            [FunctionCall ''call_1'' ''web_search'' tokyo_arguments] ping_state)
       = Inl ''KeyboardInterrupt''"
proof -
  have a1: "example_tools ''web_search''
              = Some (\<lambda>arguments w. (Raised ''Connection error.'', Suc w))"
    by (simp add: example_tools_def)
  have a2: "\<And>tm. invoke_functions_from_response example_loads tm [] ping_state
              = (Inr [], ping_state)"
    by simp
  have l1: "example_loads tokyo_arguments = Inr [(''query'', ''Tokyo climate'')]"
    by (simp add: example_loads_def tokyo_arguments_def london_arguments_def)
  have a3: "example_loads tokyo_arguments = Inl ''Connection error.''
            \<or> (\<exists>arguments. example_loads tokyo_arguments = Inr arguments
                  \<and> fst ((\<lambda>arguments w. (Raised ''Connection error.'', Suc w))
                            arguments (world ping_state)) = Raised ''Connection error.'')"
    using l1 by simp
  obtain tool where b1: "example_tools ''get_city_uuid'' = Some tool"
    by (simp add: example_tools_def)
  have l2: "example_loads ''{''
       = Inl ''Expecting property name enclosed in double quotes: line 1 column 2 (char 1)''"
    by (simp add: example_loads_def tokyo_arguments_def london_arguments_def)
  have b3: "example_loads ''{''
       = Inl ''Expecting property name enclosed in double quotes: line 1 column 2 (char 1)''
            \<or> (\<exists>arguments. example_loads ''{'' = Inr arguments
                  \<and> fst (tool arguments (world ping_state))
                      = Raised ''Expecting property name enclosed in double quotes: line 1 column 2 (char 1)'')"
    using l2 by simp
  have c1: "interrupted_tools ''web_search''
              = Some (\<lambda>arguments w. (Escaped ''KeyboardInterrupt'', Suc w))"
    by (simp add: interrupted_tools_def)
  have c3: "\<exists>arguments. example_loads tokyo_arguments = Inr arguments
              \<and> fst ((\<lambda>arguments w. (Escaped ''KeyboardInterrupt'', Suc w))
                        arguments (world ping_state)) = Escaped ''KeyboardInterrupt''"
    using l1 by simp
  note t1 = failing_tool_yields_diagnostic [where tool_mapping = example_tools
              and nm = "''web_search''" and loads = example_loads and before = "[]"
              and st = ping_state and args = tokyo_arguments and e = "''Connection error.''"
              and cid = "''call_1''" and after = "[]", OF a1 a2, THEN conjunct1]
  note t2 = failing_tool_yields_diagnostic [where tool_mapping = example_tools
              and nm = "''get_city_uuid''" and loads = example_loads and before = "[]"
              and st = ping_state and args = "''{''"
              and e = "''Expecting property name enclosed in double quotes: line 1 column 2 (char 1)''"
              and cid = "''call_2''" and after = "[]", OF b1 a2, THEN conjunct1]
  note t3 = failing_tool_yields_diagnostic [where tool_mapping = interrupted_tools
              and nm = "''web_search''" and loads = example_loads and before = "[]"
              and st = ping_state and args = tokyo_arguments and x = "''KeyboardInterrupt''"
              and cid = "''call_1''" and after = "[]", OF c1 a2, THEN conjunct2]
  have r1: "fst (invoke_functions_from_response example_loads example_tools
            [FunctionCall ''call_1'' ''web_search'' tokyo_arguments] ping_state)
       = Inr [FunctionCallOutput ''call_1''
                ''Error executing function call: web_search: Connection error.'']"
    using t1 a3 by (auto simp: error_executing_def)
  have r2: "fst (invoke_functions_from_response example_loads example_tools
            [FunctionCall ''call_2'' ''get_city_uuid'' ''{''] ping_state)
       = Inr [FunctionCallOutput ''call_2''
                (''Error executing function call: get_city_uuid: ''
                 @ ''Expecting property name enclosed in double quotes: line 1 column 2 (char 1)'')]"
    using t2 b3 by (auto simp: error_executing_def)
  have r3: "fst (invoke_functions_from_response example_loads interrupted_tools
            [FunctionCall ''call_1'' ''web_search'' tokyo_arguments] ping_state)
       = Inl ''KeyboardInterrupt''"
    using t3 c3 by simp
  from a1 l1 r1 b1 l2 r2 c1 r3 show ?thesis by (intro conjI) simp_all
qed

text \<open>
  C4 as stated, for a tool that raises any exception, fails: when \<^verbatim>\<open>web_search\<close> raises
  \<^verbatim>\<open>KeyboardInterrupt\<close>, no output is produced for the call, the exception leaves
  \<^verbatim>\<open>invoke_functions_from_response\<close>, and it ends the response loop and reaches its caller.
\<close>

theorem interrupted_tool_counterexample:
  "interrupted_tools ''web_search''
     = Some (\<lambda>arguments w. (Escaped ''KeyboardInterrupt'', Suc w))
   \<and> fst (invoke_functions_from_response example_loads interrupted_tools
            (output_items search_response) ping_state)
       = Inl ''KeyboardInterrupt''
   \<and> response_loop flaky_endpoint example_loads interrupted_tools ping_state
       = Some (ToolEscaped ''KeyboardInterrupt'', after_interrupt)"
proof (intro conjI)
  show "interrupted_tools ''web_search''
          = Some (\<lambda>arguments w. (Escaped ''KeyboardInterrupt'', Suc w))"
    by (simp add: interrupted_tools_def)
  show "fst (invoke_functions_from_response example_loads interrupted_tools
               (output_items search_response) ping_state)
          = Inl ''KeyboardInterrupt''"
    by (simp add: example_defs run_defs)
  show "response_loop flaky_endpoint example_loads interrupted_tools ping_state
          = Some (ToolEscaped ''KeyboardInterrupt'', after_interrupt)"
    by (subst response_loop.simps) (simp add: interrupted_round)
qed

subsection \<open>C5: what a round appends, and in which order\<close>




subsection \<open>C6: a response without function calls ends the loop\<close>

text \<open>
  C6. When, after any number of rounds, the endpoint returns a response without function
  calls, the response loop ends in that round: it has appended the reasoning items and the
  messages of the response, it has printed \<^verbatim>\<open>response.output_text\<close> when there is a message,
  and the world is the one that call of the endpoint left, so no further call was made. The
  loop on \<^verbatim>\<open>previous_response_id\<close> ends on such a response as well, printing its text and
  calling neither a tool nor the endpoint.
\<close>

theorem no_function_calls_ends_loop:
  assumes "after_rounds create loads tool_mapping n st0 = Some st"
      and "create (conversation st) None (world st) = (Inr resp, w)"
      and "filter is_function_call (output_items resp) = []"
  shows "(let messages = filter is_message (output_items resp);
              st' = capture_messages resp messages (tools_start resp w st)
          in response_loop create loads tool_mapping st0 = Some (Finished, st')
           \<and> conversation st'
               = conversation st @ filter is_reasoning (output_items resp) @ messages
           \<and> world st' = w
           \<and> (messages \<noteq> [] \<longrightarrow> last (stdout st') = Line (output_text resp)))
       \<and> chained_loop create loads tool_mapping resp cst
           = Some (Finished,
                   print (Line (output_text resp))
                     (snd (invoke_functions_from_response loads tool_mapping
                             (output_items resp) cst)))
       \<and> world (snd (invoke_functions_from_response loads tool_mapping (output_items resp) cst))
           = world cst"
proof -
  let ?messages = "filter is_message (output_items resp)"
  let ?st' = "capture_messages resp ?messages (tools_start resp w st)"
  have rr: "response_round create loads tool_mapping st = (Inr Break, ?st')"
    using assms(2,3) by (rule response_round_break)
  have "response_loop create loads tool_mapping st = Some (Finished, ?st')"
    by (subst response_loop.simps) (simp add: rr)
  then have loop: "response_loop create loads tool_mapping st0 = Some (Finished, ?st')"
    using after_rounds_loop [OF assms(1)] by simp
  have conv: "conversation ?st'
               = conversation st @ filter is_reasoning (output_items resp) @ ?messages"
    by (simp add: capture_messages_conversation tools_start_def capture_reasoning_conversation)
  have wd: "world ?st' = w"
    by (simp add: capture_messages_world tools_start_def capture_reasoning_world)
  have out: "?messages \<noteq> [] \<longrightarrow> last (stdout ?st') = Line (output_text resp)"
    by (simp add: capture_messages_stdout)
  have ch: "chained_loop create loads tool_mapping resp cst
           = Some (Finished,
                   print (Line (output_text resp))
                     (snd (invoke_functions_from_response loads tool_mapping
                             (output_items resp) cst)))"
  proof -
    obtain outs st1 where
      inv: "invoke_functions_from_response loads tool_mapping (output_items resp) cst = (outs, st1)"
      by (cases "invoke_functions_from_response loads tool_mapping (output_items resp) cst")
    have "outs = Inr []"
      using invoke_no_calls [OF assms(3), of loads tool_mapping cst] inv by simp
    then show ?thesis
      by (subst chained_loop.simps) (simp add: inv)
  qed
  show ?thesis
    unfolding Let_def
    using loop conv wd out ch invoke_no_calls [OF assms(3), of loads tool_mapping cst]
    by blast
qed

text \<open>
  The statement with \<open>scripted_endpoint\<close>: after one round the endpoint answers
  \<^verbatim>\<open>pong\<close>, and the loop ends with that message appended and printed.
\<close>

theorem no_function_calls_ends_loop_witness:
  "after_rounds scripted_endpoint example_loads example_tools (Suc 0) ping_state
     = Some after_first_round
   \<and> scripted_endpoint (conversation after_first_round) None (world after_first_round)
       = (Inr pong_response, 3)
   \<and> filter is_function_call (output_items pong_response) = []
   \<and> response_loop scripted_endpoint example_loads example_tools ping_state
       = Some (Finished, after_pong)
   \<and> conversation after_pong
       = conversation after_first_round @ [Message ''assistant'' ''pong'']
   \<and> last (stdout after_pong) = Line ''pong''
   \<and> world after_pong = 3"
proof -
  have h3: "filter is_function_call (output_items pong_response) = []"
    by (simp add: pong_response_def)
  have ms: "filter is_message (output_items pong_response) = [Message ''assistant'' ''pong'']"
    by (simp add: pong_response_def)
  have st: "capture_messages pong_response [Message ''assistant'' ''pong'']
              (tools_start pong_response 3 after_first_round) = after_pong"
    by (simp add: capture_messages_def tools_start_def capture_reasoning_def output_text_def
          print_def pong_response_def after_pong_def after_first_round_def)
  note t = no_function_calls_ends_loop [OF scripted_after_one scripted_second_call h3,
             unfolded Let_def ms st]
  from t have loop: "response_loop scripted_endpoint example_loads example_tools ping_state
                       = Some (Finished, after_pong)"
    by (rule conjunct1 [OF conjunct1])
  have rest: "conversation after_pong
                = conversation after_first_round @ [Message ''assistant'' ''pong'']
              \<and> last (stdout after_pong) = Line ''pong'' \<and> world after_pong = 3"
    by (simp add: after_pong_def)
  from scripted_after_one scripted_second_call h3 loop rest show ?thesis
    by (intro conjI) simp_all
qed

subsection \<open>C7: the tools are called in the order of the requests\<close>

text \<open>
  C7. \<^verbatim>\<open>invoke_functions_from_response\<close> is a single \<^verbatim>\<open>for\<close> loop, and each call of a tool
  starts in the world the call before it left. With tools that record their calls, the log
  only grows, and what is added is always a first part of the calls the output list asks for,
  in the order of the list: no call is made out of order or with an earlier one left out.
  With tools that raise instances of \<^verbatim>\<open>Exception\<close> only, what is added is all of these calls.
  And recording changes neither the result nor the rest of the state.
\<close>

theorem tools_run_in_request_order:
  "(let log = snd (world st);
        log' = snd (world (snd (invoke_functions_from_response loads (recording tool_mapping)
                                  items st)))
    in prefix log log'
     \<and> prefix log' (log @ requested_calls loads tool_mapping items)
     \<and> (only_exceptions tool_mapping \<longrightarrow>
          log' = log @ requested_calls loads tool_mapping items))
   \<and> invoke_functions_from_response loads tool_mapping items (without_log st)
     = (fst (invoke_functions_from_response loads (recording tool_mapping) items st),
        without_log (snd (invoke_functions_from_response loads (recording tool_mapping) items st)))"
proof -
  let ?run = "invoke_functions_from_response loads (recording tool_mapping) items st"
  obtain made where
    m1: "snd (world (snd ?run)) = snd (world st) @ made"
    and m2: "prefix made (requested_calls loads tool_mapping items)"
    and m3: "\<forall>results. fst ?run = Inr results
               \<longrightarrow> made = requested_calls loads tool_mapping items"
    using invoke_recording [of loads tool_mapping items st] by blast
  have all: "snd (world (snd ?run)) = snd (world st) @ requested_calls loads tool_mapping items"
    if oe: "only_exceptions tool_mapping"
  proof -
    obtain results where "fst ?run = Inr results"
      using invoke_returns [OF only_exceptions_recording [OF oe], of loads items st]
      by auto
    with m1 m3 show ?thesis by simp
  qed
  show ?thesis
    unfolding Let_def
    using m1 m2 all invoke_without_log [of loads tool_mapping items st]
    by simp
qed

text \<open>
  The statement at a list that asks for \<^verbatim>\<open>web_search\<close>, then for a tool that is not
  registered, then for \<^verbatim>\<open>get_city_uuid\<close>: the log holds the first and the third, in this order.
\<close>

theorem tools_run_in_request_order_witness:
  "only_exceptions example_tools
   \<and> snd (world (snd (invoke_functions_from_response example_loads (recording example_tools)
                       [FunctionCall ''call_1'' ''web_search'' tokyo_arguments,
                        FunctionCall ''call_2'' ''mystery'' ''{}'',
                        FunctionCall ''call_3'' ''get_city_uuid'' london_arguments]
                       \<lparr>conversation = [], total_tokens_used = 0, stdout = [],
                          world = (0, [])\<rparr>)))
       = [(''web_search'', [(''query'', ''Tokyo climate'')]),
          (''get_city_uuid'', [(''city'', ''London'')])]"
proof -
  have "requested_calls example_loads example_tools
          [FunctionCall ''call_1'' ''web_search'' tokyo_arguments,
           FunctionCall ''call_2'' ''mystery'' ''{}'',
           FunctionCall ''call_3'' ''get_city_uuid'' london_arguments]
        = [(''web_search'', [(''query'', ''Tokyo climate'')]),
           (''get_city_uuid'', [(''city'', ''London'')])]"
    by (simp add: requested_calls_def example_loads_def example_tools_def
          tokyo_arguments_def london_arguments_def)
  then show ?thesis
    using tools_run_in_request_order [of
            "\<lparr>conversation = [], total_tokens_used = 0, stdout = [], world = (0, [])\<rparr>"
            example_loads example_tools
            "[FunctionCall ''call_1'' ''web_search'' tokyo_arguments,
              FunctionCall ''call_2'' ''mystery'' ''{}'',
              FunctionCall ''call_3'' ''get_city_uuid'' london_arguments]"]
          example_tools_only_exceptions
    by (simp add: Let_def)
qed

subsection \<open>C8: what the endpoint raises leaves the loop\<close>

text \<open>
  C8. When, after any number of rounds, the call of the endpoint raises, the response loop
  ends with that exception going up to its caller; the state is the one of that moment. The
  caller, the loop over the user messages, does not catch it either: it ends with the same
  exception and leaves the remaining user messages.
\<close>

theorem endpoint_failure_propagates:
  assumes "after_rounds create loads tool_mapping n st0 = Some st"
      and "create (conversation st) None (world st) = (Inl err, w)"
  shows "response_loop create loads tool_mapping st0 = Some (Propagated err, st\<lparr>world := w\<rparr>)
       \<and> (st0 = start_message message before \<longrightarrow>
            user_messages_loop create loads tool_mapping (message # rest) before
              = Some (Propagated err, st\<lparr>world := w\<rparr>))"
proof -
  have rr: "response_round create loads tool_mapping st = (Inl err, st\<lparr>world := w\<rparr>)"
    using assms(2) by (rule response_round_failure)
  have "response_loop create loads tool_mapping st = Some (Propagated err, st\<lparr>world := w\<rparr>)"
    by (subst response_loop.simps) (simp add: rr)
  then have loop: "response_loop create loads tool_mapping st0
                     = Some (Propagated err, st\<lparr>world := w\<rparr>)"
    using after_rounds_loop [OF assms(1)] by simp
  have "user_messages_loop create loads tool_mapping (message # rest) before
          = Some (Propagated err, st\<lparr>world := w\<rparr>)"
    if "st0 = start_message message before"
    using loop that by simp
  with loop show ?thesis by blast
qed

text \<open>
  The statement with \<open>flaky_endpoint\<close>, which raises in the second round.
\<close>

theorem endpoint_failure_propagates_witness:
  "after_rounds flaky_endpoint example_loads example_tools (Suc 0) ping_state
     = Some after_flaky_round
   \<and> flaky_endpoint (conversation after_flaky_round) None (world after_flaky_round)
       = (Inl ''Request timed out.'', 3)
   \<and> ping_state = start_message ''ping'' empty_state
   \<and> response_loop flaky_endpoint example_loads example_tools ping_state
       = Some (Propagated ''Request timed out.'', after_flaky_round\<lparr>world := 3\<rparr>)
   \<and> user_messages_loop flaky_endpoint example_loads example_tools
         [''ping'', ''and again''] empty_state
       = Some (Propagated ''Request timed out.'', after_flaky_round\<lparr>world := 3\<rparr>)"
proof -
  have s: "ping_state = start_message ''ping'' empty_state"
    by (simp add: start_message_def print_def empty_state_def ping_state_def)
  show ?thesis
    using endpoint_failure_propagates [OF flaky_after_one flaky_second_call,
            of "''ping''" empty_state "[''and again'']"]
          flaky_after_one flaky_second_call s
    by simp
qed

subsection \<open>C9: the conversation only grows\<close>

text \<open>
  C9. Every pass of the response loop leaves a conversation that starts with the conversation
  it found; \<^verbatim>\<open>invoke_functions_from_response\<close> does not touch the conversation; and when the
  response loop or the loop over the user messages ends, the conversation it leaves starts
  with the one it was started with.
\<close>

theorem conversation_only_grows:
  "prefix (conversation st) (conversation (snd (response_round create loads tool_mapping st)))
   \<and> conversation (snd (invoke_functions_from_response loads tool_mapping items st))
       = conversation st
   \<and> (response_loop create loads tool_mapping st = Some (fin, st')
        \<longrightarrow> prefix (conversation st) (conversation st'))
   \<and> (user_messages_loop create loads tool_mapping user_messages st = Some (fin, st')
        \<longrightarrow> prefix (conversation st) (conversation st'))"
  using response_round_prefix [of st create loads tool_mapping]
        invoke_keeps_conversation [of loads tool_mapping items st]
        response_loop_prefix [of create loads tool_mapping st fin st']
        user_messages_loop_prefix [of create loads tool_mapping user_messages st fin st']
  by blast

text \<open>
  The statement with \<open>scripted_endpoint\<close>, for the response loop and for the loop over
  the user messages.
\<close>

theorem conversation_only_grows_witness:
  "response_loop scripted_endpoint example_loads example_tools ping_state
     = Some (Finished, after_pong)
   \<and> prefix (conversation ping_state) (conversation after_pong)
   \<and> user_messages_loop scripted_endpoint example_loads example_tools [''ping''] empty_state
     = Some (Finished, after_pong)
   \<and> prefix (conversation empty_state) (conversation after_pong)"
  using conversation_only_grows [of ping_state scripted_endpoint example_loads example_tools
          "[]" Finished after_pong "[]"]
        conversation_only_grows [of empty_state scripted_endpoint example_loads example_tools
          "[]" Finished after_pong "[''ping'']"]
        scripted_loop scripted_cell
  by simp

subsection \<open>C10: messages beside function calls\<close>



end
